theory Spec2Isabelle
  imports Complex_Main "HOL-Library.Word"
begin

section \<open>JavaScript values\<close>

text \<open>
  A JavaScript string is a sequence of 16-bit code units. Source literals are written
  \<open>js ''...''\<close>.
\<close>

type_synonym jschar = "16 word"
type_synonym jsstring = "jschar list"

definition js :: "string \<Rightarrow> jsstring" where
  "js s = map (\<lambda>c. of_nat (of_char c)) s"

text \<open>
  The values the component handles are those of JSON, plus \<open>undefined\<close>. A number is
  carried as its literal: the component never computes with a number, it only tests it
  for zero (truthiness) and passes it on. (Two literals of one number are two values
  here.) An object is its list of
  properties in insertion order, with distinct keys when it comes from \<open>JSON.parse\<close>;
  the engine's reordering of keys that look like array indices is not modelled.
\<close>

datatype jsval =
    JUndefined
  | JNull
  | JBool bool
  | JNum jsstring
  | JStr jsstring
  | JArr "jsval list"
  | JObj "(jsstring \<times> jsval) list"

text \<open>What \<open>throw\<close> carries. \<open>AxiosError r m\<close> is a rejection of the HTTP client:
  \<open>r\<close> is \<open>Some d\<close> when a response was delivered (\<open>err.response.data = d\<close>) and
  \<open>None\<close> when none was. The other errors are raised by the platform or by React
  (\<open>ReactError\<close>, thrown while rendering); the text of their message differs between
  engines, and the model fixes one.\<close>

datatype js_error =
    AxiosError "jsval option" jsstring
  | TypeError jsstring
  | SyntaxError jsstring
  | QuotaExceededError jsstring
  | URIError jsstring
  | ReactError jsstring

fun err_response :: "js_error \<Rightarrow> jsval option" where
  "err_response (AxiosError r m) = r"
| "err_response (TypeError m) = None"
| "err_response (SyntaxError m) = None"
| "err_response (QuotaExceededError m) = None"
| "err_response (URIError m) = None"
| "err_response (ReactError m) = None"

fun err_message :: "js_error \<Rightarrow> jsstring" where
  "err_message (AxiosError r m) = m"
| "err_message (TypeError m) = m"
| "err_message (SyntaxError m) = m"
| "err_message (QuotaExceededError m) = m"
| "err_message (URIError m) = m"
| "err_message (ReactError m) = m"

text \<open>\<open>s.startsWith(p)\<close>\<close>

definition startsWith :: "jsstring \<Rightarrow> jsstring \<Rightarrow> bool" where
  "startsWith s p = (take (length p) s = p)"

definition is_digit :: "jschar \<Rightarrow> bool" where
  "is_digit c = (0x30 \<le> c \<and> c \<le> 0x39)"

definition digits_value :: "jsstring \<Rightarrow> nat" where
  "digits_value ds = foldl (\<lambda>n c. 10 * n + unat (c - 0x30)) 0 ds"

text \<open>The exponent of a number literal, from the text after its exponent marker.\<close>

definition exponent_value :: "jsstring \<Rightarrow> int" where
  "exponent_value ex =
     (case ex of
        [] \<Rightarrow> 0
      | c # cs \<Rightarrow>
          if c = 0x2D then - int (digits_value cs)
          else if c = 0x2B then int (digits_value cs)
          else int (digits_value ex))"

text \<open>
  Whether the double a number literal denotes is zero. The literal's value is
  \<open>d * 10 ^ k\<close>, with \<open>d\<close> the digits of the mantissa and \<open>k\<close> the exponent less the
  number of fraction digits; it is rounded to the nearest double, ties to even, so it
  becomes zero exactly when it is at most \<open>2 ^ -1075\<close>, half the least positive
  double.
\<close>

definition num_is_zero :: "jsstring \<Rightarrow> bool" where
  "num_is_zero lit =
     (let body = (case lit of [] \<Rightarrow> [] | c # cs \<Rightarrow> if c = 0x2D then cs else lit);
          mant = takeWhile (\<lambda>c. c \<noteq> 0x65 \<and> c \<noteq> 0x45) body;
          whole = takeWhile is_digit mant;
          frac = drop (Suc (length whole)) mant;
          d = digits_value (whole @ frac);
          k = exponent_value (drop (Suc (length mant)) body) - int (length frac)
      in d = 0 \<or> (k < 0 \<and> d * 2 ^ 1075 \<le> 10 ^ nat (- k)))"

text \<open>\<open>ToBoolean\<close>: what \<open>a && b\<close>, \<open>a || b\<close>, \<open>!a\<close> and \<open>a ? b : c\<close> test.\<close>

fun truthy :: "jsval \<Rightarrow> bool" where
  "truthy JUndefined = False"
| "truthy JNull = False"
| "truthy (JBool b) = b"
| "truthy (JNum lit) = (\<not> num_is_zero lit)"
| "truthy (JStr s) = (s \<noteq> [])"
| "truthy (JArr xs) = True"
| "truthy (JObj kvs) = True"

definition nullish :: "jsval \<Rightarrow> bool" where
  "nullish v = (v = JUndefined \<or> v = JNull)"

text \<open>
  Reading a property \<open>v.name\<close>, for the names the component reads (\<open>error\<close>,
  \<open>success\<close>, \<open>data\<close>, \<open>number\<close>, \<open>short_description\<close>, \<open>state\<close>,
  \<open>opened_at\<close>, \<open>assigned_to\<close>, \<open>display_value\<close>): none of them is a property of a
  primitive, of an array or of \<open>Object.prototype\<close>. On \<open>null\<close> and \<open>undefined\<close> the
  read throws.
\<close>

fun get_prop :: "jsval \<Rightarrow> jsstring \<Rightarrow> js_error + jsval" where
  "get_prop JUndefined name =
     Inl (TypeError (js ''Cannot read properties of undefined (reading '' @ name @ js '')''))"
| "get_prop JNull name =
     Inl (TypeError (js ''Cannot read properties of null (reading '' @ name @ js '')''))"
| "get_prop (JObj kvs) name = Inr (case map_of kvs name of None \<Rightarrow> JUndefined | Some v \<Rightarrow> v)"
| "get_prop (JBool b) name = Inr JUndefined"
| "get_prop (JNum lit) name = Inr JUndefined"
| "get_prop (JStr s) name = Inr JUndefined"
| "get_prop (JArr xs) name = Inr JUndefined"

section \<open>JSON.stringify\<close>

text \<open>\<open>JSON.stringify\<close> is the platform's; the model follows its definition in the
  language standard (\<open>SerializeJSONProperty\<close>, \<open>QuoteJSONString\<close>), without a
  replacer or indentation, as the component calls it.\<close>

definition is_high_surrogate :: "jschar \<Rightarrow> bool" where
  "is_high_surrogate c = (0xD800 \<le> c \<and> c \<le> 0xDBFF)"

definition is_low_surrogate :: "jschar \<Rightarrow> bool" where
  "is_low_surrogate c = (0xDC00 \<le> c \<and> c \<le> 0xDFFF)"

definition hex_digit :: "nat \<Rightarrow> jschar" where
  "hex_digit n = (if n < 10 then 0x30 + of_nat n else 0x61 + of_nat (n - 10))"

text \<open>\<open>\uXXXX\<close>, in lower-case hexadecimal.\<close>

definition unicode_escape :: "jschar \<Rightarrow> jsstring" where
  "unicode_escape c =
     [0x5C, 0x75,
      hex_digit (unat c div 4096), hex_digit (unat c div 256 mod 16),
      hex_digit (unat c div 16 mod 16), hex_digit (unat c mod 16)]"

definition quote_unit :: "jschar \<Rightarrow> jsstring" where
  "quote_unit c =
     (if c = 0x08 then [0x5C, 0x62]
      else if c = 0x09 then [0x5C, 0x74]
      else if c = 0x0A then [0x5C, 0x6E]
      else if c = 0x0C then [0x5C, 0x66]
      else if c = 0x0D then [0x5C, 0x72]
      else if c = 0x22 then [0x5C, 0x22]
      else if c = 0x5C then [0x5C, 0x5C]
      else if c < 0x20 \<or> is_high_surrogate c \<or> is_low_surrogate c then unicode_escape c
      else [c])"

text \<open>The body of \<open>QuoteJSONString\<close>: the string is read by code points, so that a
  surrogate pair is copied and a lone surrogate is escaped.\<close>

fun quote_body :: "jsstring \<Rightarrow> jsstring" where
  "quote_body [] = []"
| "quote_body [c] = quote_unit c"
| "quote_body (c # d # cs) =
     (if is_high_surrogate c \<and> is_low_surrogate d then c # d # quote_body cs
      else quote_unit c @ quote_body (d # cs))"

definition QuoteJSONString :: "jsstring \<Rightarrow> jsstring" where
  "QuoteJSONString s = 0x22 # quote_body s @ [0x22]"

fun join_with :: "jsstring \<Rightarrow> jsstring list \<Rightarrow> jsstring" where
  "join_with sep [] = []"
| "join_with sep [x] = x"
| "join_with sep (x # y # ys) = x @ sep @ join_with sep (y # ys)"

text \<open>\<open>SerializeJSONProperty\<close>; \<open>None\<close> is the result \<open>undefined\<close>. In an array
  \<open>undefined\<close> is written \<open>null\<close>, in an object the property is left out.\<close>

fun serialize :: "jsval \<Rightarrow> jsstring option" where
  "serialize JUndefined = None"
| "serialize JNull = Some (js ''null'')"
| "serialize (JBool b) = Some (if b then js ''true'' else js ''false'')"
| "serialize (JNum lit) = Some lit"
| "serialize (JStr s) = Some (QuoteJSONString s)"
| "serialize (JArr xs) =
     Some (0x5B # join_with [0x2C]
             (map (\<lambda>x. case serialize x of None \<Rightarrow> js ''null'' | Some t \<Rightarrow> t) xs) @ [0x5D])"
| "serialize (JObj kvs) =
     Some (0x7B # join_with [0x2C]
             (concat (map (\<lambda>kv. case serialize (snd kv) of None \<Rightarrow> []
                                 | Some t \<Rightarrow> [QuoteJSONString (fst kv) @ 0x3A # t]) kvs)) @ [0x7D])"

text \<open>\<open>JSON.stringify(v)\<close> used as a string (as \<open>setItem\<close> does with its argument).\<close>

definition JSON_stringify :: "jsval \<Rightarrow> jsstring" where
  "JSON_stringify v = (case serialize v of None \<Rightarrow> js ''undefined'' | Some t \<Rightarrow> t)"

section \<open>JSON.parse\<close>

text \<open>
  \<open>JSON.parse\<close> is the platform's; the model follows the JSON grammar in two passes:
  the text is cut into tokens, and the tokens are read by a machine with a stack of the
  arrays and objects that are open. Either pass fails on a text that is not JSON, and
  \<open>JSON.parse\<close> throws \<open>SyntaxError\<close>. Both passes are total: no text makes them run
  on.
\<close>

definition is_ws :: "jschar \<Rightarrow> bool" where
  "is_ws c = (c = 0x20 \<or> c = 0x09 \<or> c = 0x0A \<or> c = 0x0D)"

definition hex_value :: "jschar \<Rightarrow> nat option" where
  "hex_value c =
     (if 0x30 \<le> c \<and> c \<le> 0x39 then Some (unat c - 0x30)
      else if 0x61 \<le> c \<and> c \<le> 0x66 then Some (unat c - 0x61 + 10)
      else if 0x41 \<le> c \<and> c \<le> 0x46 then Some (unat c - 0x41 + 10)
      else None)"

definition hex4 :: "jschar \<Rightarrow> jschar \<Rightarrow> jschar \<Rightarrow> jschar \<Rightarrow> jschar option" where
  "hex4 a b c d =
     (case (hex_value a, hex_value b, hex_value c, hex_value d) of
        (Some x, Some y, Some z, Some w) \<Rightarrow> Some (of_nat (((x * 16 + y) * 16 + z) * 16 + w))
      | _ \<Rightarrow> None)"

definition simple_escape :: "jschar \<Rightarrow> jschar option" where
  "simple_escape e =
     (if e = 0x22 then Some 0x22
      else if e = 0x5C then Some 0x5C
      else if e = 0x2F then Some 0x2F
      else if e = 0x62 then Some 0x08
      else if e = 0x66 then Some 0x0C
      else if e = 0x6E then Some 0x0A
      else if e = 0x72 then Some 0x0D
      else if e = 0x74 then Some 0x09
      else None)"

text \<open>The characters of a string literal after its opening quote, up to the closing
  quote, with the rest of the text.\<close>

definition consed :: "'a \<Rightarrow> ('a list \<times> 'b) option \<Rightarrow> ('a list \<times> 'b) option" where
  "consed c r = (case r of None \<Rightarrow> None | Some (s, rest) \<Rightarrow> Some (c # s, rest))"

fun parse_chars :: "jsstring \<Rightarrow> (jsstring \<times> jsstring) option" where
  "parse_chars [] = None"
| "parse_chars (c # cs) =
     (if c = 0x22 then Some ([], cs)
      else if c = 0x5C then
        (case cs of
           [] \<Rightarrow> None
         | e # r \<Rightarrow>
             if e = 0x75 then
               (case r of
                  h1 # h2 # h3 # h4 # r' \<Rightarrow>
                    (case hex4 h1 h2 h3 h4 of
                       None \<Rightarrow> None
                     | Some u \<Rightarrow> consed u (parse_chars r'))
                | _ \<Rightarrow> None)
             else (case simple_escape e of
                     None \<Rightarrow> None
                   | Some u \<Rightarrow> consed u (parse_chars r)))
      else if c < 0x20 then None
      else consed c (parse_chars cs))"

text \<open>A number literal: \<open>-?(0|[1-9][0-9]*)(\.[0-9]+)?([eE][+-]?[0-9]+)?\<close>\<close>

definition lex_int :: "jsstring \<Rightarrow> (jsstring \<times> jsstring) option" where
  "lex_int s =
     (case s of
        [] \<Rightarrow> None
      | d # ds \<Rightarrow>
          if d = 0x30 then Some ([d], ds)
          else if is_digit d then Some (d # takeWhile is_digit ds, dropWhile is_digit ds)
          else None)"

definition lex_frac :: "jsstring \<Rightarrow> (jsstring \<times> jsstring) option" where
  "lex_frac s =
     (case s of
        [] \<Rightarrow> Some ([], s)
      | c # cs \<Rightarrow>
          if c = 0x2E then
            (if takeWhile is_digit cs = [] then None
             else Some (c # takeWhile is_digit cs, dropWhile is_digit cs))
          else Some ([], s))"

definition lex_sign :: "jsstring \<Rightarrow> jsstring \<times> jsstring" where
  "lex_sign s =
     (case s of
        [] \<Rightarrow> ([], s)
      | c # cs \<Rightarrow> if c = 0x2B \<or> c = 0x2D then ([c], cs) else ([], s))"

definition lex_exp :: "jsstring \<Rightarrow> (jsstring \<times> jsstring) option" where
  "lex_exp s =
     (case s of
        [] \<Rightarrow> Some ([], s)
      | c # cs \<Rightarrow>
          if c = 0x65 \<or> c = 0x45 then
            (case lex_sign cs of
               (sg, ds) \<Rightarrow>
                 if takeWhile is_digit ds = [] then None
                 else Some (c # sg @ takeWhile is_digit ds, dropWhile is_digit ds))
          else Some ([], s))"

definition lex_number :: "jsstring \<Rightarrow> (jsstring \<times> jsstring) option" where
  "lex_number s =
     (case (case s of [] \<Rightarrow> ([], s) | c # cs \<Rightarrow> if c = 0x2D then ([c], cs) else ([], s)) of
        (neg, s1) \<Rightarrow>
          (case lex_int s1 of
             None \<Rightarrow> None
           | Some (i, s2) \<Rightarrow>
               (case lex_frac s2 of
                  None \<Rightarrow> None
                | Some (f, s3) \<Rightarrow>
                    (case lex_exp s3 of
                       None \<Rightarrow> None
                     | Some (e, s4) \<Rightarrow> Some (neg @ i @ f @ e, s4)))))"

datatype token = TLBrace | TRBrace | TLBrack | TRBrack | TComma | TColon | TScalar jsval

lemma consed_length: "consed c r = Some (s, rest) \<Longrightarrow> \<exists>s'. r = Some (s', rest)"
  by (auto simp: consed_def split: option.splits)

lemma parse_chars_length: "parse_chars s = Some (x, r) \<Longrightarrow> length r < length s"
proof (induction s arbitrary: x r rule: parse_chars.induct)
  case 1
  then show ?case by simp
next
  case (2 c cs)
  then show ?case
    by (fastforce split: if_splits list.splits option.splits dest!: consed_length)
qed

lemma lex_int_split: "lex_int s = Some (i, r) \<Longrightarrow> s = i @ r \<and> i \<noteq> []"
  by (auto simp: lex_int_def split: list.splits if_splits)

lemma lex_frac_split: "lex_frac s = Some (f, r) \<Longrightarrow> s = f @ r"
  by (auto simp: lex_frac_def split: list.splits if_splits)

lemma lex_sign_split: "lex_sign s = (sg, r) \<Longrightarrow> s = sg @ r"
  by (auto simp: lex_sign_def split: list.splits if_splits)

lemma lex_exp_split: "lex_exp s = Some (e, r) \<Longrightarrow> s = e @ r"
  by (auto simp: lex_exp_def split: list.splits if_splits prod.splits dest!: lex_sign_split)

lemma lex_number_split: "lex_number s = Some (lit, r) \<Longrightarrow> s = lit @ r \<and> lit \<noteq> []"
  by (auto simp: lex_number_def split: list.splits if_splits option.splits
      dest!: lex_int_split lex_frac_split lex_exp_split)

lemma lex_number_length: "lex_number s = Some (lit, r) \<Longrightarrow> length r < length s"
  by (drule lex_number_split) (cases lit, auto)

definition push :: "token \<Rightarrow> token list option \<Rightarrow> token list option" where
  "push t r = (case r of None \<Rightarrow> None | Some ts \<Rightarrow> Some (t # ts))"

function tokenize :: "jsstring \<Rightarrow> token list option" where
  "tokenize [] = Some []"
| "tokenize (c # cs) =
     (if is_ws c then tokenize cs
      else if c = 0x7B then push TLBrace (tokenize cs)
      else if c = 0x7D then push TRBrace (tokenize cs)
      else if c = 0x5B then push TLBrack (tokenize cs)
      else if c = 0x5D then push TRBrack (tokenize cs)
      else if c = 0x2C then push TComma (tokenize cs)
      else if c = 0x3A then push TColon (tokenize cs)
      else if c = 0x22 then
        (case parse_chars cs of
           None \<Rightarrow> None
         | Some (s, r) \<Rightarrow> push (TScalar (JStr s)) (tokenize r))
      else if startsWith (c # cs) (js ''true'') then
        push (TScalar (JBool True)) (tokenize (drop 3 cs))
      else if startsWith (c # cs) (js ''false'') then
        push (TScalar (JBool False)) (tokenize (drop 4 cs))
      else if startsWith (c # cs) (js ''null'') then
        push (TScalar JNull) (tokenize (drop 3 cs))
      else (case lex_number (c # cs) of
              None \<Rightarrow> None
            | Some (lit, r) \<Rightarrow> push (TScalar (JNum lit)) (tokenize r)))"
  by pat_completeness auto
termination
  by (relation "measure length") (auto dest: parse_chars_length lex_number_length)

text \<open>Defining a property: a later value for a key replaces the earlier one, in the
  earlier one's place.\<close>

definition put_member :: "(jsstring \<times> jsval) list \<Rightarrow> jsstring \<Rightarrow> jsval \<Rightarrow> (jsstring \<times> jsval) list" where
  "put_member acc k v =
     (if k \<in> fst ` set acc then map (\<lambda>kv. if fst kv = k then (k, v) else kv) acc
      else acc @ [(k, v)])"

datatype frame =
    FArr "jsval list"
  | FObj "(jsstring \<times> jsval) list"
  | FKey "(jsstring \<times> jsval) list" jsstring

datatype mode = NeedValue bool | NeedKey bool | NeedColon | AfterValue

record pstate =
  stack :: "frame list"
  pmode :: mode
  parsed :: "jsval option"

definition deliver :: "jsval \<Rightarrow> frame list \<Rightarrow> pstate option" where
  "deliver v stk =
     (case stk of
        [] \<Rightarrow> Some \<lparr>stack = [], pmode = AfterValue, parsed = Some v\<rparr>
      | FArr acc # stk' \<Rightarrow> Some \<lparr>stack = FArr (acc @ [v]) # stk', pmode = AfterValue, parsed = None\<rparr>
      | FKey acc k # stk' \<Rightarrow>
          Some \<lparr>stack = FObj (put_member acc k v) # stk', pmode = AfterValue, parsed = None\<rparr>
      | FObj acc # stk' \<Rightarrow> None)"

definition step :: "pstate \<Rightarrow> token \<Rightarrow> pstate option" where
  "step p t =
     (case pmode p of
        NeedValue closable \<Rightarrow>
          (case t of
             TScalar v \<Rightarrow> deliver v (stack p)
           | TLBrack \<Rightarrow> Some \<lparr>stack = FArr [] # stack p, pmode = NeedValue True, parsed = None\<rparr>
           | TLBrace \<Rightarrow> Some \<lparr>stack = FObj [] # stack p, pmode = NeedKey True, parsed = None\<rparr>
           | TRBrack \<Rightarrow>
               (case stack p of
                  FArr acc # stk' \<Rightarrow> if closable then deliver (JArr acc) stk' else None
                | _ \<Rightarrow> None)
           | _ \<Rightarrow> None)
      | NeedKey closable \<Rightarrow>
          (case stack p of
             FObj acc # stk' \<Rightarrow>
               (case t of
                  TScalar (JStr k) \<Rightarrow> Some \<lparr>stack = FKey acc k # stk', pmode = NeedColon, parsed = None\<rparr>
                | TRBrace \<Rightarrow> if closable then deliver (JObj acc) stk' else None
                | _ \<Rightarrow> None)
           | _ \<Rightarrow> None)
      | NeedColon \<Rightarrow>
          (case t of
             TColon \<Rightarrow> Some \<lparr>stack = stack p, pmode = NeedValue False, parsed = None\<rparr>
           | _ \<Rightarrow> None)
      | AfterValue \<Rightarrow>
          (case stack p of
             FArr acc # stk' \<Rightarrow>
               (case t of
                  TComma \<Rightarrow> Some \<lparr>stack = stack p, pmode = NeedValue False, parsed = None\<rparr>
                | TRBrack \<Rightarrow> deliver (JArr acc) stk'
                | _ \<Rightarrow> None)
           | FObj acc # stk' \<Rightarrow>
               (case t of
                  TComma \<Rightarrow> Some \<lparr>stack = stack p, pmode = NeedKey False, parsed = None\<rparr>
                | TRBrace \<Rightarrow> deliver (JObj acc) stk'
                | _ \<Rightarrow> None)
           | _ \<Rightarrow> None))"

fun run :: "pstate \<Rightarrow> token list \<Rightarrow> pstate option" where
  "run p [] = Some p"
| "run p (t # ts) = (case step p t of None \<Rightarrow> None | Some p' \<Rightarrow> run p' ts)"

definition syntax_error :: js_error where
  "syntax_error = SyntaxError (js ''Unexpected token in JSON'')"

definition JSON_parse :: "jsstring \<Rightarrow> js_error + jsval" where
  "JSON_parse s =
     (case tokenize s of
        None \<Rightarrow> Inl syntax_error
      | Some ts \<Rightarrow>
          (case run \<lparr>stack = [], pmode = NeedValue False, parsed = None\<rparr> ts of
             None \<Rightarrow> Inl syntax_error
           | Some p \<Rightarrow>
               (case parsed p of
                  None \<Rightarrow> Inl syntax_error
                | Some v \<Rightarrow> if stack p = [] \<and> pmode p = AfterValue then Inr v else Inl syntax_error)))"


section \<open>The environment of the component\<close>

datatype http_method = GET | POST

record request =
  req_method :: http_method
  req_url :: jsstring
  req_params :: "(jsstring \<times> jsval) list"

type_synonym storage = "jsstring \<Rightarrow> jsstring option"

text \<open>
  What the component does not decide: the answer of the HTTP client to a request it
  sends (\<open>Inr d\<close>: the promise resolves with \<open>response.data = d\<close>; \<open>Inl e\<close>: it
  rejects with \<open>e\<close>), the clock, and whether the browser accepts a write to
  \<open>localStorage\<close>.
\<close>

record env =
  axios_get :: "request \<Rightarrow> js_error + jsval"
  now_iso :: jsstring
  quota_ok :: "storage \<Rightarrow> bool"
  quota_message :: jsstring

definition getItem :: "storage \<Rightarrow> jsstring \<Rightarrow> jsstring option" where
  "getItem st k = st k"

definition setItem :: "env \<Rightarrow> storage \<Rightarrow> jsstring \<Rightarrow> jsstring \<Rightarrow> js_error + storage" where
  "setItem E st k v =
     (if quota_ok E (st(k \<mapsto> v)) then Inr (st(k \<mapsto> v))
      else Inl (QuotaExceededError (quota_message E)))"

section \<open>The component \<open>App\<close>\<close>

record app_state =
  query :: jsstring
  results :: jsval
  loading :: bool
  error :: jsval
  searchHistory :: jsval

definition initial_state :: app_state where
  "initial_state =
     \<lparr>query = [], results = JNull, loading = False, error = JNull, searchHistory = JArr []\<rparr>"

text \<open>The code points of a string, each as a string: what iterating a string yields.\<close>

fun code_points :: "jsstring \<Rightarrow> jsstring list" where
  "code_points [] = []"
| "code_points [c] = [[c]]"
| "code_points (c # d # cs) =
     (if is_high_surrogate c \<and> is_low_surrogate d then [c, d] # code_points cs
      else [c] # code_points (d # cs))"

text \<open>The spread \<open>[...v]\<close>: the elements of an array, the code points of a string; any
  other JSON value is not iterable.\<close>

fun spread :: "jsval \<Rightarrow> js_error + jsval list" where
  "spread (JArr xs) = Inr xs"
| "spread (JStr s) = Inr (map JStr (code_points s))"
| "spread v = Inl (TypeError (js ''searchHistory is not iterable''))"

text \<open>
  \<open>isWellFormed\<close>: no surrogate stands outside a pair. The HTTP client writes the
  parameters into the URL with \<open>encodeURIComponent\<close>, which throws \<open>URIError\<close> on a
  string that is not well formed; the request is then never sent.
\<close>

fun well_formed :: "jsstring \<Rightarrow> bool" where
  "well_formed [] = True"
| "well_formed [c] = (\<not> is_high_surrogate c \<and> \<not> is_low_surrogate c)"
| "well_formed (c # d # cs) =
     (if is_high_surrogate c \<and> is_low_surrogate d then well_formed cs
      else \<not> is_high_surrogate c \<and> \<not> is_low_surrogate c \<and> well_formed (d # cs))"

fun encodable :: "jsval \<Rightarrow> bool" where
  "encodable (JStr s) = well_formed s"
| "encodable v = True"

definition search_request :: "jsstring \<Rightarrow> request" where
  "search_request q =
     \<lparr>req_method = GET,
      req_url = js ''http://localhost:8000/api/search_snow'',
      req_params = [(js ''search_query'', JStr q), (js ''max_results'', JNum (js ''100''))]\<rparr>"

definition history_entry :: "jsstring \<Rightarrow> jsstring \<Rightarrow> jsval" where
  "history_entry q t = JObj [(js ''query'', JStr q), (js ''timestamp'', JStr t)]"

text \<open>The expression of the \<open>catch\<close> block:
  \<open>err.response ? err.response.data.error || 'An error occurred' : err.message\<close>.\<close>

definition errorMessage :: "js_error \<Rightarrow> js_error + jsval" where
  "errorMessage err =
     (case err_response err of
        Some d \<Rightarrow>
          (case get_prop d (js ''error'') of
             Inl e \<Rightarrow> Inl e
           | Inr v \<Rightarrow> Inr (if truthy v then v else JStr (js ''An error occurred'')))
      | None \<Rightarrow> Inr (JStr (err_message err)))"

text \<open>
  What a call of \<open>handleSubmit\<close> leaves behind: the state of the component, the
  storage, the requests it issued, the exception its \<open>catch\<close> block received
  (\<open>None\<close>: the \<open>try\<close> block ran to its end), and how the call ended
  (\<open>Some e\<close>: the promise of the \<open>async\<close> function rejects with \<open>e\<close>).
\<close>

record outcome =
  out_state :: app_state
  out_storage :: storage
  out_requests :: "request list"
  out_caught :: "js_error option"
  out_thrown :: "js_error option"

text \<open>\<open>catch (err) { ... } finally { setLoading(false) }\<close>, entered in state \<open>s\<close>.\<close>

definition catch_finally ::
  "js_error \<Rightarrow> app_state \<Rightarrow> storage \<Rightarrow> request list \<Rightarrow> outcome" where
  "catch_finally err s st reqs =
     (case errorMessage err of
        Inl e \<Rightarrow>
          \<lparr>out_state = s\<lparr>loading := False\<rparr>, out_storage = st,
           out_requests = reqs, out_caught = Some err, out_thrown = Some e\<rparr>
      | Inr m \<Rightarrow>
          \<lparr>out_state = s\<lparr>error := m, loading := False\<rparr>, out_storage = st,
           out_requests = reqs, out_caught = Some err, out_thrown = None\<rparr>)"

text \<open>
  \<open>handleSubmit\<close>, called in state \<open>s\<close> with storage \<open>st\<close>. The state setters
  take effect in the order they are called; \<open>query\<close> and \<open>searchHistory\<close> are read
  from the state of the render that created the handler, which is \<open>s\<close>.
  \<open>e.preventDefault()\<close> touches nothing the component keeps. \<open>axios.get\<close> first
  builds the URL, which may throw, and then sends the request, to which the
  environment answers.
\<close>

definition handleSubmit :: "env \<Rightarrow> app_state \<Rightarrow> storage \<Rightarrow> outcome" where
  "handleSubmit E s st =
     (let s1 = s\<lparr>loading := True, error := JNull\<rparr>;
          req = search_request (query s)
      in if \<not> list_all (\<lambda>kv. encodable (snd kv)) (req_params req) then
           catch_finally (URIError (js ''URI malformed'')) s1 st []
         else case axios_get E req of
           Inl err \<Rightarrow> catch_finally err s1 st [req]
         | Inr data \<Rightarrow>
             (case spread (searchHistory s) of
                Inl err \<Rightarrow> catch_finally err s1 st [req]
              | Inr old \<Rightarrow>
                  (let newHistory = JArr (history_entry (query s) (now_iso E) # old);
                       s2 = s1\<lparr>searchHistory := newHistory\<rparr>
                   in case setItem E st (js ''searchHistory'') (JSON_stringify newHistory) of
                        Inl err \<Rightarrow> catch_finally err s2 st [req]
                      | Inr st' \<Rightarrow>
                          \<lparr>out_state = s2\<lparr>results := data, loading := False\<rparr>,
                           out_storage = st', out_requests = [req],
                           out_caught = None, out_thrown = None\<rparr>)))"

text \<open>The effect run once when the component is mounted:
  \<open>const savedHistory = localStorage.getItem('searchHistory');
  if (savedHistory) { setSearchHistory(JSON.parse(savedHistory)); }\<close>.
  \<open>Inl e\<close>: the effect throws \<open>e\<close>.\<close>

definition loadHistory :: "app_state \<Rightarrow> storage \<Rightarrow> js_error + app_state" where
  "loadHistory s st =
     (case getItem st (js ''searchHistory'') of
        None \<Rightarrow> Inr s
      | Some savedHistory \<Rightarrow>
          if savedHistory = [] then Inr s
          else (case JSON_parse savedHistory of
                  Inl e \<Rightarrow> Inl e
                | Inr v \<Rightarrow> Inr (s\<lparr>searchHistory := v\<rparr>)))"

text \<open>
  The request state of the specification, read off the three variables the component
  keeps (\<open>loading\<close>, \<open>error\<close>, \<open>results\<close>): the flag first, then the message,
  then the payload. A variable holding \<open>null\<close>, as \<open>error\<close> and \<open>results\<close> do
  before the first submission, holds nothing.
\<close>

datatype request_state = Idle | Loading | Success jsval | Failed jsval

definition request_state :: "app_state \<Rightarrow> request_state" where
  "request_state s =
     (if loading s then Loading
      else if \<not> nullish (error s) then Failed (error s)
      else if \<not> nullish (results s) then Success (results s)
      else Idle)"

text \<open>The path of an absolute URL: what follows the authority, up to the query.\<close>

fun after_scheme :: "jsstring \<Rightarrow> jsstring" where
  "after_scheme (a # b # c # cs) =
     (if a = 0x3A \<and> b = 0x2F \<and> c = 0x2F then cs else after_scheme (b # c # cs))"
| "after_scheme cs = []"

definition url_path :: "jsstring \<Rightarrow> jsstring" where
  "url_path u =
     takeWhile (\<lambda>c. c \<noteq> 0x3F \<and> c \<noteq> 0x23) (dropWhile (\<lambda>c. c \<noteq> 0x2F) (after_scheme u))"

section \<open>What the component renders\<close>

text \<open>The optional chain \<open>a?.name\<close>.\<close>

definition opt_chain :: "jsval \<Rightarrow> jsstring \<Rightarrow> js_error + jsval" where
  "opt_chain a name = (if nullish a then Inr JUndefined else get_prop a name)"

text \<open>\<open>record.assigned_to?.display_value || 'Unassigned'\<close>\<close>

definition assigned_to_cell :: "jsval \<Rightarrow> js_error + jsval" where
  "assigned_to_cell record =
     (case get_prop record (js ''assigned_to'') of
        Inl e \<Rightarrow> Inl e
      | Inr a \<Rightarrow>
          (case opt_chain a (js ''display_value'') of
             Inl e \<Rightarrow> Inl e
           | Inr dv \<Rightarrow> Inr (if truthy dv then dv else JStr (js ''Unassigned''))))"

text \<open>
  What rendering takes from the platform: the text of a number (of the double a literal
  denotes), and \<open>new Date(v).toLocaleString()\<close>.
\<close>

record platform =
  num_text :: "jsstring \<Rightarrow> jsstring"
  date_text :: "jsval \<Rightarrow> jsstring"

text \<open>\<open>formatDate\<close>\<close>

definition formatDate :: "platform \<Rightarrow> jsval \<Rightarrow> jsval" where
  "formatDate P dateString =
     (if \<not> truthy dateString then JStr [] else JStr (date_text P dateString))"

fun map_rows :: "('a \<Rightarrow> js_error + 'b) \<Rightarrow> 'a list \<Rightarrow> js_error + 'b list" where
  "map_rows f [] = Inr []"
| "map_rows f (x # xs) =
     (case f x of
        Inl e \<Rightarrow> Inl e
      | Inr y \<Rightarrow> (case map_rows f xs of Inl e \<Rightarrow> Inl e | Inr ys \<Rightarrow> Inr (y # ys)))"

subsection \<open>The elements the function \<open>App\<close> returns\<close>

text \<open>
  A conditional child \<open>a && <element>\<close> is the element when \<open>a\<close> is truthy, and
  otherwise the falsy value itself, handed to React as a child.
\<close>

datatype 'a shown = Element 'a | Child jsval

record table_row =
  row_key :: jsval
  cell_number :: jsval
  cell_short_description :: jsval
  cell_state :: jsval
  cell_opened_at :: jsval
  cell_assigned_to :: jsval

definition render_row :: "platform \<Rightarrow> jsval \<Rightarrow> js_error + table_row" where
  "render_row P record =
     (case get_prop record (js ''number'') of Inl e \<Rightarrow> Inl e | Inr n \<Rightarrow>
      case get_prop record (js ''short_description'') of Inl e \<Rightarrow> Inl e | Inr d \<Rightarrow>
      case get_prop record (js ''state'') of Inl e \<Rightarrow> Inl e | Inr st \<Rightarrow>
      case get_prop record (js ''opened_at'') of Inl e \<Rightarrow> Inl e | Inr opened \<Rightarrow>
      case assigned_to_cell record of Inl e \<Rightarrow> Inl e | Inr a \<Rightarrow>
        Inr \<lparr>row_key = n, cell_number = n, cell_short_description = d, cell_state = st,
             cell_opened_at = formatDate P opened, cell_assigned_to = a\<rparr>)"

record results_table =
  total_records :: nat
  table_rows :: "table_row list"

text \<open>
  \<open>results && results.success && results.data && (...)\<close>. Of the JSON values only an
  array has a \<open>map\<close> method.
\<close>

definition results_view :: "platform \<Rightarrow> jsval \<Rightarrow> js_error + results_table shown" where
  "results_view P res =
     (if \<not> truthy res then Inr (Child res)
      else case get_prop res (js ''success'') of Inl e \<Rightarrow> Inl e | Inr ok \<Rightarrow>
        if \<not> truthy ok then Inr (Child ok)
        else case get_prop res (js ''data'') of Inl e \<Rightarrow> Inl e | Inr d \<Rightarrow>
          if \<not> truthy d then Inr (Child d)
          else (case d of
                  JArr recs \<Rightarrow>
                    (case map_rows (render_row P) recs of
                       Inl e \<Rightarrow> Inl e
                     | Inr rows \<Rightarrow>
                         Inr (Element \<lparr>total_records = length recs, table_rows = rows\<rparr>))
                | _ \<Rightarrow> Inl (TypeError (js ''results.data.map is not a function''))))"

text \<open>\<open>error && <div className="error-message">{error}</div>\<close>\<close>

definition error_view :: "app_state \<Rightarrow> jsval shown" where
  "error_view s = (if truthy (error s) then Element (error s) else Child (error s))"

text \<open>The list of the history: \<open>searchHistory.map(...)\<close>, each item with its
  \<open>query\<close> and the locale's text of its \<open>timestamp\<close>.\<close>

record history_item =
  item_query :: jsval
  item_time :: jsstring

definition history_row :: "platform \<Rightarrow> jsval \<Rightarrow> js_error + history_item" where
  "history_row P item =
     (case get_prop item (js ''query'') of Inl e \<Rightarrow> Inl e | Inr q \<Rightarrow>
      case get_prop item (js ''timestamp'') of Inl e \<Rightarrow> Inl e | Inr t \<Rightarrow>
        Inr \<lparr>item_query = q, item_time = date_text P t\<rparr>)"

definition history_view :: "platform \<Rightarrow> jsval \<Rightarrow> js_error + history_item list" where
  "history_view P h =
     (case h of
        JArr items \<Rightarrow> map_rows (history_row P) items
      | _ \<Rightarrow> Inl (TypeError (js ''searchHistory.map is not a function'')))"

record app_elements =
  el_searching :: bool
  el_error :: "jsval shown"
  el_table :: "results_table shown"
  el_history :: "history_item list"

text \<open>The body of the function \<open>App\<close> from \<open>return\<close> on: the expressions in the JSX
  are evaluated in the order they are written, and one that throws ends the render.\<close>

definition App :: "platform \<Rightarrow> app_state \<Rightarrow> js_error + app_elements" where
  "App P s =
     (case results_view P (results s) of Inl e \<Rightarrow> Inl e | Inr tv \<Rightarrow>
      case history_view P (searchHistory s) of Inl e \<Rightarrow> Inl e | Inr hv \<Rightarrow>
        Inr \<lparr>el_searching = loading s, el_error = error_view s, el_table = tv,
             el_history = hv\<rparr>)"

subsection \<open>What React makes of the elements\<close>

text \<open>
  A child of an element, as React renders it: a non-empty string and a number are a
  text; \<open>null\<close>, \<open>undefined\<close>, a boolean and the empty string are nothing; an array
  is its items, one after the other; an object is refused, and React throws.
\<close>

fun render_child :: "platform \<Rightarrow> jsval \<Rightarrow> js_error + jsstring list"
  and render_children :: "platform \<Rightarrow> jsval list \<Rightarrow> js_error + jsstring list" where
  "render_child P JUndefined = Inr []"
| "render_child P JNull = Inr []"
| "render_child P (JBool b) = Inr []"
| "render_child P (JNum lit) = Inr [num_text P lit]"
| "render_child P (JStr s) = Inr (if s = [] then [] else [s])"
| "render_child P (JArr xs) = render_children P xs"
| "render_child P (JObj kvs) =
     Inl (ReactError (js ''Objects are not valid as a React child''))"
| "render_children P [] = Inr []"
| "render_children P (x # xs) =
     (case render_child P x of
        Inl e \<Rightarrow> Inl e
      | Inr a \<Rightarrow> (case render_children P xs of Inl e \<Rightarrow> Inl e | Inr b \<Rightarrow> Inr (a @ b)))"

text \<open>The text of the assigned-to cell of a record.\<close>

definition assigned_to_text :: "platform \<Rightarrow> jsval \<Rightarrow> js_error + jsstring list" where
  "assigned_to_text P record =
     (case assigned_to_cell record of Inl e \<Rightarrow> Inl e | Inr v \<Rightarrow> render_child P v)"

text \<open>What is on the page: an element drawn, or the text of a bare child.\<close>

datatype 'a drawn = Drawn 'a | Bare "jsstring list"

record row_text =
  text_number :: "jsstring list"
  text_short_description :: "jsstring list"
  text_state :: "jsstring list"
  text_opened_at :: "jsstring list"
  text_assigned_to :: "jsstring list"

definition draw_row :: "platform \<Rightarrow> table_row \<Rightarrow> js_error + row_text" where
  "draw_row P r =
     (case render_child P (cell_number r) of Inl e \<Rightarrow> Inl e | Inr n \<Rightarrow>
      case render_child P (cell_short_description r) of Inl e \<Rightarrow> Inl e | Inr d \<Rightarrow>
      case render_child P (cell_state r) of Inl e \<Rightarrow> Inl e | Inr st \<Rightarrow>
      case render_child P (cell_opened_at r) of Inl e \<Rightarrow> Inl e | Inr opened \<Rightarrow>
      case render_child P (cell_assigned_to r) of Inl e \<Rightarrow> Inl e | Inr a \<Rightarrow>
        Inr \<lparr>text_number = n, text_short_description = d, text_state = st,
             text_opened_at = opened, text_assigned_to = a\<rparr>)"

record table_text =
  text_total :: nat
  text_rows :: "row_text list"

fun draw_error :: "platform \<Rightarrow> jsval shown \<Rightarrow> js_error + (jsstring list) drawn" where
  "draw_error P (Element v) =
     (case render_child P v of Inl e \<Rightarrow> Inl e | Inr t \<Rightarrow> Inr (Drawn t))"
| "draw_error P (Child v) =
     (case render_child P v of Inl e \<Rightarrow> Inl e | Inr t \<Rightarrow> Inr (Bare t))"

fun draw_table :: "platform \<Rightarrow> results_table shown \<Rightarrow> js_error + table_text drawn" where
  "draw_table P (Element tb) =
     (case map_rows (draw_row P) (table_rows tb) of
        Inl e \<Rightarrow> Inl e
      | Inr rows \<Rightarrow> Inr (Drawn \<lparr>text_total = total_records tb, text_rows = rows\<rparr>))"
| "draw_table P (Child v) =
     (case render_child P v of Inl e \<Rightarrow> Inl e | Inr t \<Rightarrow> Inr (Bare t))"

definition draw_item :: "platform \<Rightarrow> history_item \<Rightarrow> js_error + jsstring list \<times> jsstring" where
  "draw_item P i =
     (case render_child P (item_query i) of Inl e \<Rightarrow> Inl e | Inr q \<Rightarrow> Inr (q, item_time i))"

record app_view =
  view_searching :: bool
  view_error :: "(jsstring list) drawn"
  view_table :: "table_text drawn"
  view_history :: "(jsstring list \<times> jsstring) list"

definition render_tree :: "platform \<Rightarrow> app_elements \<Rightarrow> js_error + app_view" where
  "render_tree P els =
     (case draw_error P (el_error els) of Inl e \<Rightarrow> Inl e | Inr ev \<Rightarrow>
      case draw_table P (el_table els) of Inl e \<Rightarrow> Inl e | Inr tv \<Rightarrow>
      case map_rows (draw_item P) (el_history els) of Inl e \<Rightarrow> Inl e | Inr hv \<Rightarrow>
        Inr \<lparr>view_searching = el_searching els, view_error = ev, view_table = tv,
             view_history = hv\<rparr>)"

text \<open>
  One render of the component in state \<open>s\<close>. The error message, the table and the
  history are children of one tree, and no error boundary stands between them: when
  any part throws, nothing of the component is on the page (\<open>Inl\<close>).
\<close>

definition render_app :: "platform \<Rightarrow> app_state \<Rightarrow> js_error + app_view" where
  "render_app P s = (case App P s of Inl e \<Rightarrow> Inl e | Inr els \<Rightarrow> render_tree P els)"

section \<open>Sample environments\<close>

text \<open>An environment whose HTTP client gives the same answer to every request, and whose
  storage takes every write (\<open>room\<close>) or none.\<close>

definition sample_env :: "js_error + jsval \<Rightarrow> bool \<Rightarrow> env" where
  "sample_env answer room =
     \<lparr>axios_get = (\<lambda>req. answer), now_iso = js ''2025-05-09T10:00:00.000Z'',
      quota_ok = (\<lambda>st. room), quota_message = js ''The quota has been exceeded.''\<rparr>"

text \<open>A platform for concrete inputs: a number's text is its literal, which is right
  for the literals used on it, and every date has the same text.\<close>

definition sample_platform :: platform where
  "sample_platform = \<lparr>num_text = (\<lambda>lit. lit), date_text = (\<lambda>v. js ''5/9/2025, 10:00:00 AM'')\<rparr>"

text \<open>Payloads and response bodies used as concrete inputs below.\<close>

definition failure_body :: jsval where
  "failure_body = JObj [(js ''success'', JBool False), (js ''error'', JStr (js ''boom''))]"

definition sample_payload :: jsval where
  "sample_payload =
     JObj [(js ''success'', JBool True),
           (js ''data'', JArr [JObj [(js ''number'', JStr (js ''CHG001'')),
              (js ''assigned_to'', JObj [(js ''display_value'', JStr (js ''J. Doe''))])]])]"

definition status_500 :: jsstring where
  "status_500 = js ''Request failed with status code 500''"

section \<open>The development proxy\<close>

text \<open>\<open>path.replace(/^\/api/, '')\<close>\<close>

definition proxy_rewrite :: "jsstring \<Rightarrow> jsstring" where
  "proxy_rewrite path = (if startsWith path (js ''/api'') then drop 4 path else path)"

text \<open>The rule \<open>'/api'\<close> of the development server (port 3000): the URL a request to
  the server is forwarded to, \<open>None\<close> when the rule does not apply.\<close>

definition dev_proxy :: "jsstring \<Rightarrow> jsstring option" where
  "dev_proxy path =
     (if startsWith path (js ''/api'') then Some (js ''http://localhost:8000'' @ proxy_rewrite path)
      else None)"

section \<open>The asset rewrite plugin\<close>

text \<open>\<open>s.includes(p)\<close>\<close>

fun js_includes :: "jsstring \<Rightarrow> jsstring \<Rightarrow> bool" where
  "js_includes [] p = (p = [])"
| "js_includes (c # cs) p = (startsWith (c # cs) p \<or> js_includes cs p)"

text \<open>What \<open>.\<close> does not match.\<close>

definition is_line_terminator :: "jschar \<Rightarrow> bool" where
  "is_line_terminator c = (c = 0x0A \<or> c = 0x0D \<or> c = 0x2028 \<or> c = 0x2029)"

text \<open>
  The lazy group \<open>(.*?)\<close> followed by the literal text \<open>close\<close>: the shortest run of
  characters, none a line terminator, after which \<open>close\<close> stands; with it, the text
  after \<open>close\<close>.
\<close>

fun shortest_before :: "jsstring \<Rightarrow> jsstring \<Rightarrow> (jsstring \<times> jsstring) option" where
  "shortest_before close [] = (if close = [] then Some ([], []) else None)"
| "shortest_before close (c # cs) =
     (if startsWith (c # cs) close then Some ([], drop (length close) (c # cs))
      else if is_line_terminator c then None
      else consed c (shortest_before close cs))"

text \<open>
  A match of \<open>url\((['"]?)(.*?)\1\)\<close> at the head of \<open>s\<close>: the quote, the inner
  reference and the text after the match. The optional quote is greedy: the match with
  a quote is tried first, and the match with the empty quote only when that fails.
\<close>

definition match_quoted :: "jsstring \<Rightarrow> (jsstring \<times> jsstring \<times> jsstring) option" where
  "match_quoted r =
     (case r of
        [] \<Rightarrow> None
      | q # r' \<Rightarrow>
          if q = 0x27 \<or> q = 0x22 then
            (case shortest_before [q, 0x29] r' of
               None \<Rightarrow> None
             | Some (u, rest) \<Rightarrow> Some ([q], u, rest))
          else None)"

definition match_unquoted :: "jsstring \<Rightarrow> (jsstring \<times> jsstring \<times> jsstring) option" where
  "match_unquoted r =
     (case shortest_before [0x29] r of
        None \<Rightarrow> None
      | Some (u, rest) \<Rightarrow> Some ([], u, rest))"

definition match_url :: "jsstring \<Rightarrow> (jsstring \<times> jsstring \<times> jsstring) option" where
  "match_url s =
     (if startsWith s (js ''url('') then
        (case match_quoted (drop 4 s) of
           Some m \<Rightarrow> Some m
         | None \<Rightarrow> match_unquoted (drop 4 s))
      else None)"

text \<open>The text of a token: \<open>url(\<close>, quote, reference, quote, \<open>)\<close>.\<close>

definition url_token :: "jsstring \<Rightarrow> jsstring \<Rightarrow> jsstring" where
  "url_token q u = js ''url('' @ q @ u @ q @ [0x29]"

text \<open>
  \<open>new URL(url, base).href\<close> is the platform's; it is the parameter \<open>resolve\<close>, which
  throws (\<open>Inl\<close>) on a reference it cannot parse.
\<close>

type_synonym resolver = "jsstring \<Rightarrow> jsstring \<Rightarrow> js_error + jsstring"

text \<open>The replacer function, called with the match, the quote and the reference.\<close>

definition replacer :: "resolver \<Rightarrow> jsstring \<Rightarrow> jsstring \<Rightarrow> jsstring \<Rightarrow> js_error + jsstring" where
  "replacer resolve match quote url =
     (if \<not> startsWith url (js ''data:'') \<and> \<not> startsWith url (js ''http'') then
        (case resolve url (js ''http://localhost:3000'') of
           Inl e \<Rightarrow> Inl e
         | Inr href \<Rightarrow> Inr (url_token quote href))
      else Inr match)"

lemma consed_split: "consed c r = Some (s, rest) \<Longrightarrow> \<exists>s'. r = Some (s', rest) \<and> s = c # s'"
  by (auto simp: consed_def split: option.splits)

lemma shortest_before_split:
  "shortest_before close s = Some (u, rest) \<Longrightarrow> s = u @ close @ rest"
proof (induction s arbitrary: u)
  case Nil
  then show ?case by (simp split: if_splits)
next
  case (Cons c cs)
  show ?case
  proof (cases "startsWith (c # cs) close")
    case True
    with Cons.prems have "u = []" and "rest = drop (length close) (c # cs)"
      by simp_all
    moreover from True have "c # cs = close @ drop (length close) (c # cs)"
      unfolding startsWith_def by (metis append_take_drop_id)
    ultimately show ?thesis by simp
  next
    case False
    with Cons.prems obtain u' where "shortest_before close cs = Some (u', rest)" and "u = c # u'"
      by (auto split: if_splits dest: consed_split)
    with Cons.IH show ?thesis by simp
  qed
qed

lemma match_quoted_split: "match_quoted r = Some (q, u, rest) \<Longrightarrow> r = q @ u @ q @ 0x29 # rest"
  by (cases r) (auto simp: match_quoted_def split: if_splits option.splits
      dest: shortest_before_split)

lemma match_unquoted_split: "match_unquoted r = Some (q, u, rest) \<Longrightarrow> r = q @ u @ q @ 0x29 # rest"
  by (auto simp: match_unquoted_def split: option.splits dest: shortest_before_split)

lemma startsWith_split: "startsWith s p \<Longrightarrow> s = p @ drop (length p) s"
  unfolding startsWith_def using append_take_drop_id [of "length p" s] by simp

lemma match_url_split:
  assumes "match_url s = Some (q, u, rest)"
  shows "s = url_token q u @ rest"
proof -
  from assms have sw: "startsWith s (js ''url('')"
    by (simp add: match_url_def split: if_splits)
  have len: "length (js ''url('') = 4"
    by (simp add: js_def)
  from startsWith_split [OF sw] have s: "s = js ''url('' @ drop 4 s"
    unfolding len .
  from assms sw have "match_quoted (drop 4 s) = Some (q, u, rest) \<or>
      match_unquoted (drop 4 s) = Some (q, u, rest)"
    by (simp add: match_url_def split: option.splits)
  then have "drop 4 s = q @ u @ q @ 0x29 # rest"
    using match_quoted_split match_unquoted_split by blast
  with s show ?thesis
    unfolding url_token_def by (metis append.assoc append_Cons append_Nil)
qed

lemma match_url_length: "match_url s = Some (q, u, rest) \<Longrightarrow> length rest < length s"
  by (drule match_url_split) (simp add: url_token_def js_def)

text \<open>
  \<open>value.replace(/url\((['"]?)(.*?)\1\)/g, replacer)\<close>: the matches are found from
  left to right, each after the end of the one before, and the text between them is
  kept. A replacer that throws ends the call.
\<close>

function replace_urls :: "resolver \<Rightarrow> jsstring \<Rightarrow> js_error + jsstring" where
  "replace_urls resolve [] = Inr []"
| "replace_urls resolve (c # cs) =
     (case match_url (c # cs) of
        None \<Rightarrow>
          (case replace_urls resolve cs of
             Inl e \<Rightarrow> Inl e
           | Inr out \<Rightarrow> Inr (c # out))
      | Some (q, u, rest) \<Rightarrow>
          (case replacer resolve (url_token q u) q u of
             Inl e \<Rightarrow> Inl e
           | Inr new \<Rightarrow>
               (case replace_urls resolve rest of
                  Inl e \<Rightarrow> Inl e
                | Inr out \<Rightarrow> Inr (new @ out))))"
  by pat_completeness auto
termination
  by (relation "measure (\<lambda>(resolve, s). length s)") (auto dest: match_url_length)

text \<open>The callback of \<open>walkDecls\<close>, on the value of a declaration.\<close>

definition rewrite_value :: "resolver \<Rightarrow> jsstring \<Rightarrow> js_error + jsstring" where
  "rewrite_value resolve v = (if js_includes v (js ''url'') then replace_urls resolve v else Inr v)"

record css_decl =
  decl_prop :: jsstring
  decl_value :: jsstring

text \<open>\<open>OnceExit\<close>: \<open>walkDecls('background-image', ...)\<close> calls the callback on the
  declarations of that property, in order; the others are not visited.\<close>

definition rewrite_decl :: "resolver \<Rightarrow> css_decl \<Rightarrow> js_error + css_decl" where
  "rewrite_decl resolve d =
     (if decl_prop d = js ''background-image'' then
        (case rewrite_value resolve (decl_value d) of
           Inl e \<Rightarrow> Inl e
         | Inr v \<Rightarrow> Inr (d\<lparr>decl_value := v\<rparr>))
      else Inr d)"

definition OnceExit :: "resolver \<Rightarrow> css_decl list \<Rightarrow> js_error + css_decl list" where
  "OnceExit resolve css = map_rows (rewrite_decl resolve) css"

text \<open>A resolver for concrete inputs: it is right on a relative path of plain
  segments, which is all it is used on.\<close>

definition sample_resolve :: resolver where
  "sample_resolve u base = Inr (base @ (if startsWith u [0x2F] then u else 0x2F # u))"

text \<open>
  A token \<open>url(\<close>, quote, reference, quote, \<open>)\<close> that the pattern reads as written:
  the reference has no line terminator; unquoted, it has no closing parenthesis and
  does not begin with a quote; quoted, it does not contain its quote followed by a
  closing parenthesis.
\<close>

fun well_delimited :: "jsstring \<Rightarrow> jsstring \<Rightarrow> bool" where
  "well_delimited [] u =
     (filter is_line_terminator u = [] \<and> 0x29 \<notin> set u \<and>
      (case u of [] \<Rightarrow> True | c # cs \<Rightarrow> c \<noteq> 0x27 \<and> c \<noteq> 0x22))"
| "well_delimited [q] u =
     ((q = 0x27 \<or> q = 0x22) \<and> filter is_line_terminator u = [] \<and> \<not> js_includes u [q, 0x29])"
| "well_delimited (q # q' # qs) u = False"

text \<open>
  The specification's reading of a value, to compare \<open>rewrite_value\<close> with: a value
  is a sequence of pieces, each a text followed by one token, and a tail. Each token's
  reference is resolved on its own unless it is excluded.
\<close>

record url_piece =
  piece_before :: jsstring
  piece_quote :: jsstring
  piece_ref :: jsstring

fun assemble :: "url_piece list \<Rightarrow> jsstring \<Rightarrow> jsstring" where
  "assemble [] tail = tail"
| "assemble (p # ps) tail =
     piece_before p @ url_token (piece_quote p) (piece_ref p) @ assemble ps tail"

definition retarget :: "resolver \<Rightarrow> url_piece \<Rightarrow> js_error + url_piece" where
  "retarget resolve p =
     (if startsWith (piece_ref p) (js ''data:'') \<or> startsWith (piece_ref p) (js ''http'') then Inr p
      else (case resolve (piece_ref p) (js ''http://localhost:3000'') of
              Inl e \<Rightarrow> Inl e
            | Inr href \<Rightarrow> Inr (p\<lparr>piece_ref := href\<rparr>)))"

definition piece_ok :: "url_piece \<Rightarrow> bool" where
  "piece_ok p =
     (\<not> js_includes (piece_before p) (js ''url('') \<and> well_delimited (piece_quote p) (piece_ref p))"


text \<open>The two exclusions in the words of the specification: a reference that uses the
  data-embedding scheme, and one that uses an absolute HTTP(S) scheme.\<close>

definition uses_data_scheme :: "jsstring \<Rightarrow> bool" where
  "uses_data_scheme u = startsWith u (js ''data:'')"

definition uses_absolute_http :: "jsstring \<Rightarrow> bool" where
  "uses_absolute_http u = (startsWith u (js ''http://'') \<or> startsWith u (js ''https://''))"


section \<open>Properties of \<open>handleSubmit\<close>\<close>

lemma truthy_not_nullish: "truthy v \<Longrightarrow> \<not> nullish v"
  by (cases v) (simp_all add: nullish_def)

lemma get_prop_not_nullish: "\<not> nullish d \<Longrightarrow> \<exists>v. get_prop d name = Inr v"
  by (cases d) (simp_all add: nullish_def)

lemma errorMessage_not_nullish: "errorMessage err = Inr m \<Longrightarrow> \<not> nullish m"
  by (auto simp: errorMessage_def nullish_def split: option.splits sum.splits if_splits
      dest: truthy_not_nullish)

lemma catch_finally_loading: "\<not> loading (out_state (catch_finally err s st reqs))"
  by (simp add: catch_finally_def split: sum.split)

lemma catch_finally_caught: "out_caught (catch_finally err s st reqs) = Some err"
  by (simp add: catch_finally_def split: sum.split)

text \<open>The \<open>catch\<close> block writes the message and the flag, and nothing else.\<close>

lemma catch_finally_frame:
  "results (out_state (catch_finally err s st reqs)) = results s \<and>
   searchHistory (out_state (catch_finally err s st reqs)) = searchHistory s \<and>
   query (out_state (catch_finally err s st reqs)) = query s \<and>
   out_storage (catch_finally err s st reqs) = st \<and>
   out_requests (catch_finally err s st reqs) = reqs"
  by (simp add: catch_finally_def split: sum.split)

lemma catch_finally_failed:
  "out_thrown (catch_finally err s st reqs) = None \<Longrightarrow>
   \<exists>m. errorMessage err = Inr m \<and>
       request_state (out_state (catch_finally err s st reqs)) = Failed m"
  by (auto simp: catch_finally_def request_state_def split: sum.splits
      dest: errorMessage_not_nullish)

lemma handleSubmit_clears_loading: "\<not> loading (out_state (handleSubmit E s st))"
  by (simp add: handleSubmit_def Let_def catch_finally_loading split: sum.split)

lemma params_encodable:
  "list_all (\<lambda>kv. encodable (snd kv)) (req_params (search_request q)) = well_formed q"
  by (simp add: search_request_def)

lemma handleSubmit_requests:
  "out_requests (handleSubmit E s st) =
     (if well_formed (query s) then [search_request (query s)] else [])"
  by (simp add: handleSubmit_def Let_def params_encodable catch_finally_frame split: sum.split)

text \<open>A call in which the URL is built, the request resolves, the history can be
  spread and the storage takes the write: the \<open>try\<close> block runs to its end.\<close>

lemma handleSubmit_completes:
  assumes "well_formed (query s)" and "axios_get E (search_request (query s)) = Inr d"
    and "spread (searchHistory s) = Inr h"
    and "quota_ok E (st(js ''searchHistory'' \<mapsto>
           JSON_stringify (JArr (history_entry (query s) (now_iso E) # h))))"
  shows "handleSubmit E s st =
     \<lparr>out_state = s\<lparr>loading := False, error := JNull,
          searchHistory := JArr (history_entry (query s) (now_iso E) # h), results := d\<rparr>,
      out_storage = st(js ''searchHistory'' \<mapsto>
          JSON_stringify (JArr (history_entry (query s) (now_iso E) # h))),
      out_requests = [search_request (query s)], out_caught = None, out_thrown = None\<rparr>"
  using assms by (simp add: handleSubmit_def Let_def params_encodable setItem_def)

text \<open>
  C1 (as amended). After \<open>handleSubmit\<close> has run, on every exit path, the loading flag
  is false, so the component is not in the state \<open>Loading\<close>. When the \<open>catch\<close> block
  ran to its end the state is \<open>Failed\<close> with a message; when the \<open>try\<close> block ran to
  its end, the request had resolved, and the state is \<open>Success\<close> with the payload unless
  the payload is \<open>null\<close> or \<open>undefined\<close>.
\<close>

theorem submit_leaves_loading:
  "\<not> loading (out_state (handleSubmit E s st)) \<and>
   request_state (out_state (handleSubmit E s st)) \<noteq> Loading \<and>
   (out_caught (handleSubmit E s st) \<noteq> None \<and> out_thrown (handleSubmit E s st) = None \<longrightarrow>
      (\<exists>m. request_state (out_state (handleSubmit E s st)) = Failed m)) \<and>
   (out_caught (handleSubmit E s st) = None \<longrightarrow>
      (\<exists>d. axios_get E (search_request (query s)) = Inr d \<and>
           (\<not> nullish d \<longrightarrow> request_state (out_state (handleSubmit E s st)) = Success d)))"
proof (intro conjI)
  show "\<not> loading (out_state (handleSubmit E s st))"
    by (rule handleSubmit_clears_loading)
  then show "request_state (out_state (handleSubmit E s st)) \<noteq> Loading"
    by (simp add: request_state_def)
  show "out_caught (handleSubmit E s st) \<noteq> None \<and> out_thrown (handleSubmit E s st) = None \<longrightarrow>
      (\<exists>m. request_state (out_state (handleSubmit E s st)) = Failed m)"
    by (auto simp: handleSubmit_def Let_def catch_finally_caught split: sum.splits
        dest: catch_finally_failed)
  show "out_caught (handleSubmit E s st) = None \<longrightarrow>
      (\<exists>d. axios_get E (search_request (query s)) = Inr d \<and>
           (\<not> nullish d \<longrightarrow> request_state (out_state (handleSubmit E s st)) = Success d))"
    by (auto simp: handleSubmit_def Let_def catch_finally_caught request_state_def nullish_def
        split: sum.splits)
qed

theorem submit_leaves_loading_witness:
  "request_state (out_state
     (handleSubmit (sample_env (Inr sample_payload) True) initial_state Map.empty))
     = Success sample_payload \<and>
   request_state (out_state
     (handleSubmit (sample_env (Inl (AxiosError None (js ''Network Error''))) True)
        initial_state Map.empty))
     = Failed (JStr (js ''Network Error''))"
  using submit_leaves_loading [of "sample_env (Inr sample_payload) True" initial_state Map.empty]
    submit_leaves_loading [of "sample_env (Inl (AxiosError None (js ''Network Error''))) True"
      initial_state Map.empty]
  by (simp add: handleSubmit_def Let_def search_request_def sample_env_def initial_state_def request_state_def
      nullish_def setItem_def catch_finally_def errorMessage_def sample_payload_def)

text \<open>
  C1 as stated fails: a request that resolves with the payload \<open>null\<close> leaves the
  component holding no payload and no message, as it was before any submission: the
  state is \<open>Idle\<close>, neither \<open>Success\<close> nor \<open>Failed\<close>.
\<close>

theorem submit_null_payload_counterexample:
  "request_state (out_state
     (handleSubmit (sample_env (Inr JNull) True) initial_state Map.empty)) = Idle \<and>
   results (out_state
     (handleSubmit (sample_env (Inr JNull) True) initial_state Map.empty)) = results initial_state \<and>
   error (out_state
     (handleSubmit (sample_env (Inr JNull) True) initial_state Map.empty)) = error initial_state \<and>
   out_caught (handleSubmit (sample_env (Inr JNull) True) initial_state Map.empty) = None"
  by (simp add: handleSubmit_def Let_def search_request_def sample_env_def initial_state_def request_state_def
      nullish_def setItem_def)

text \<open>
  C2, at the input where the code leaves it: the request resolves and the storage
  refuses the write. The history in memory has gained the entry, the storage has
  nothing, and the state is \<open>Failed\<close> with the storage's message.
\<close>

theorem history_grows_when_storage_refuses:
  "searchHistory (out_state
     (handleSubmit (sample_env (Inr sample_payload) False) initial_state Map.empty))
     = JArr [history_entry [] (js ''2025-05-09T10:00:00.000Z'')] \<and>
   out_storage (handleSubmit (sample_env (Inr sample_payload) False) initial_state Map.empty)
     = Map.empty \<and>
   request_state (out_state
     (handleSubmit (sample_env (Inr sample_payload) False) initial_state Map.empty))
     = Failed (JStr (js ''The quota has been exceeded.''))"
  by (simp add: handleSubmit_def Let_def search_request_def sample_env_def initial_state_def request_state_def
      nullish_def setItem_def catch_finally_def errorMessage_def)

text \<open>What does hold of the history: a call whose \<open>try\<close> block runs to its end puts one
  entry in front and stores the new sequence; a rejected request changes neither.\<close>

lemma handleSubmit_resolved_history:
  "out_caught (handleSubmit E s st) = None \<Longrightarrow> searchHistory s = JArr h \<Longrightarrow>
   searchHistory (out_state (handleSubmit E s st))
     = JArr (history_entry (query s) (now_iso E) # h) \<and>
   out_storage (handleSubmit E s st) =
     st(js ''searchHistory'' \<mapsto> JSON_stringify (JArr (history_entry (query s) (now_iso E) # h)))"
  by (auto simp: handleSubmit_def Let_def catch_finally_caught setItem_def
      split: sum.splits if_splits)

lemma handleSubmit_rejected_history:
  "axios_get E (search_request (query s)) = Inl e \<Longrightarrow>
   searchHistory (out_state (handleSubmit E s st)) = searchHistory s \<and>
   out_storage (handleSubmit E s st) = st"
  by (simp add: handleSubmit_def Let_def catch_finally_frame)

text \<open>
  C3 (as amended). When the request is sent and rejected with a response whose body has
  a truthy \<open>error\<close> field, the state is \<open>Failed\<close> with the value of that field. When
  the request resolves, its body is no failure whatever its success flag or
  \<open>error\<close> field says: if the \<open>try\<close> block then runs to its end, the body is the
  payload held, no message is held, and an entry is put in front of the history.
\<close>

theorem rejected_response_error_shown:
  "(well_formed (query s) \<and>
    axios_get E (search_request (query s)) = Inl (AxiosError (Some d) m) \<and>
    get_prop d (js ''error'') = Inr v \<and> truthy v \<longrightarrow>
      request_state (out_state (handleSubmit E s st)) = Failed v) \<and>
   (axios_get E (search_request (query s)) = Inr d' \<and>
    out_caught (handleSubmit E s st) = None \<longrightarrow>
      results (out_state (handleSubmit E s st)) = d' \<and>
      error (out_state (handleSubmit E s st)) = JNull \<and>
      (\<exists>h. spread (searchHistory s) = Inr h \<and>
           searchHistory (out_state (handleSubmit E s st)) =
             JArr (history_entry (query s) (now_iso E) # h)))"
proof (intro conjI impI)
  assume "well_formed (query s) \<and>
    axios_get E (search_request (query s)) = Inl (AxiosError (Some d) m) \<and>
    get_prop d (js ''error'') = Inr v \<and> truthy v"
  then show "request_state (out_state (handleSubmit E s st)) = Failed v"
    by (simp add: handleSubmit_def Let_def params_encodable catch_finally_def errorMessage_def
        request_state_def truthy_not_nullish)
next
  assume a: "axios_get E (search_request (query s)) = Inr d' \<and>
    out_caught (handleSubmit E s st) = None"
  then show "results (out_state (handleSubmit E s st)) = d'"
    by (auto simp: handleSubmit_def Let_def catch_finally_caught split: sum.splits if_splits)
  from a show "error (out_state (handleSubmit E s st)) = JNull"
    by (auto simp: handleSubmit_def Let_def catch_finally_caught split: sum.splits if_splits)
  from a show "\<exists>h. spread (searchHistory s) = Inr h \<and>
           searchHistory (out_state (handleSubmit E s st)) =
             JArr (history_entry (query s) (now_iso E) # h)"
    by (auto simp: handleSubmit_def Let_def catch_finally_caught split: sum.splits if_splits)
qed

theorem rejected_response_error_shown_witness:
  "request_state (out_state
     (handleSubmit (sample_env (Inl (AxiosError (Some failure_body) status_500)) True)
        initial_state Map.empty)) = Failed (JStr (js ''boom'')) \<and>
   results (out_state
     (handleSubmit (sample_env (Inr failure_body) True) initial_state Map.empty))
     = failure_body"
  using rejected_response_error_shown
    [of initial_state "sample_env (Inl (AxiosError (Some failure_body) status_500)) True"
      failure_body status_500 "JStr (js ''boom'')" Map.empty JNull]
    rejected_response_error_shown
    [of initial_state "sample_env (Inr failure_body) True"
      JNull status_500 JNull Map.empty failure_body]
  by (simp add: handleSubmit_def Let_def search_request_def sample_env_def failure_body_def
      initial_state_def setItem_def js_def)

text \<open>
  C3 as stated fails: a response the client resolves with (status 2xx) whose body has
  the success flag false and an \<open>error\<close> field goes down the success path. The state is
  \<open>Success\<close> with the body, and no message is held.
\<close>

theorem resolved_failure_body_counterexample:
  "request_state (out_state
     (handleSubmit (sample_env (Inr failure_body) True) initial_state Map.empty))
     = Success failure_body \<and>
   error (out_state
     (handleSubmit (sample_env (Inr failure_body) True) initial_state Map.empty)) = JNull"
  by (simp add: handleSubmit_def Let_def search_request_def sample_env_def initial_state_def request_state_def
      nullish_def setItem_def failure_body_def)

text \<open>
  C6 (as amended). For a query that is well formed (no lone surrogate) the call issues
  exactly one request: a GET of \<open>http://localhost:8000/api/search_snow\<close> with exactly
  the parameters \<open>search_query\<close>, the query, and \<open>max_results\<close>, 100. For a query
  with a lone surrogate the HTTP client throws \<open>URIError\<close> while it builds the URL, and
  no request is issued. The call asks the client nothing but the answer to that one
  request: two environments that agree on it, on the clock and on the storage give
  the same outcome.
\<close>

theorem submit_issues_one_request:
  "(well_formed (query s) \<longrightarrow>
      out_requests (handleSubmit E s st) =
        [\<lparr>req_method = GET, req_url = js ''http://localhost:8000/api/search_snow'',
          req_params = [(js ''search_query'', JStr (query s)),
                        (js ''max_results'', JNum (js ''100''))]\<rparr>]) \<and>
   (\<not> well_formed (query s) \<longrightarrow>
      out_requests (handleSubmit E s st) = [] \<and>
      out_caught (handleSubmit E s st) = Some (URIError (js ''URI malformed''))) \<and>
   (axios_get E' (search_request (query s)) = axios_get E (search_request (query s)) \<and>
    now_iso E' = now_iso E \<and> quota_ok E' = quota_ok E \<and> quota_message E' = quota_message E
      \<longrightarrow> handleSubmit E' s st = handleSubmit E s st)"
proof (intro conjI impI)
  assume "well_formed (query s)"
  then show "out_requests (handleSubmit E s st) =
        [\<lparr>req_method = GET, req_url = js ''http://localhost:8000/api/search_snow'',
          req_params = [(js ''search_query'', JStr (query s)),
                        (js ''max_results'', JNum (js ''100''))]\<rparr>]"
    by (simp add: handleSubmit_requests search_request_def)
next
  assume "\<not> well_formed (query s)"
  then show "out_requests (handleSubmit E s st) = []"
    by (simp add: handleSubmit_requests)
next
  assume "\<not> well_formed (query s)"
  then show "out_caught (handleSubmit E s st) = Some (URIError (js ''URI malformed''))"
    by (simp add: handleSubmit_def Let_def params_encodable catch_finally_caught)
next
  assume "axios_get E' (search_request (query s)) = axios_get E (search_request (query s)) \<and>
    now_iso E' = now_iso E \<and> quota_ok E' = quota_ok E \<and> quota_message E' = quota_message E"
  then show "handleSubmit E' s st = handleSubmit E s st"
    by (auto simp: handleSubmit_def Let_def setItem_def split: sum.split)
qed

theorem submit_issues_one_request_witness:
  "out_requests (handleSubmit (sample_env (Inr sample_payload) True)
      (initial_state\<lparr>query := js ''open change tickets''\<rparr>) Map.empty) =
     [\<lparr>req_method = GET, req_url = js ''http://localhost:8000/api/search_snow'',
       req_params = [(js ''search_query'', JStr (js ''open change tickets'')),
                     (js ''max_results'', JNum (js ''100''))]\<rparr>] \<and>
   out_requests (handleSubmit (sample_env (Inr sample_payload) True)
      (initial_state\<lparr>query := [0xD800]\<rparr>) Map.empty) = [] \<and>
   handleSubmit (sample_env (Inr sample_payload) True) initial_state Map.empty =
     handleSubmit
       ((sample_env (Inl (AxiosError None (js ''Network Error''))) True)
          \<lparr>axios_get := (\<lambda>req. if req = search_request [] then Inr sample_payload
                                 else Inl (AxiosError None (js ''Network Error'')))\<rparr>)
       initial_state Map.empty"
  using submit_issues_one_request
    [of "initial_state\<lparr>query := js ''open change tickets''\<rparr>"
      "sample_env (Inr sample_payload) True" Map.empty "sample_env (Inr sample_payload) True"]
    submit_issues_one_request
    [of "initial_state\<lparr>query := [0xD800]\<rparr>"
      "sample_env (Inr sample_payload) True" Map.empty "sample_env (Inr sample_payload) True"]
    submit_issues_one_request
    [of initial_state
      "(sample_env (Inl (AxiosError None (js ''Network Error''))) True)
          \<lparr>axios_get := (\<lambda>req. if req = search_request [] then Inr sample_payload
                                 else Inl (AxiosError None (js ''Network Error'')))\<rparr>"
      Map.empty "sample_env (Inr sample_payload) True"]
  by (simp add: initial_state_def sample_env_def js_def is_high_surrogate_def
      is_low_surrogate_def)

text \<open>
  C6 as stated fails: the path of the request is \<open>/api/search_snow\<close>, not
  \<open>/search_snow\<close>. The request names the backend's origin itself, so the development
  server's proxy, which would strip \<open>/api\<close>, is not on its way.
\<close>

theorem request_path_counterexample:
  "url_path (req_url (hd (out_requests
     (handleSubmit (sample_env (Inr sample_payload) True) initial_state Map.empty))))
     = js ''/api/search_snow'' \<and>
   url_path (req_url (hd (out_requests
     (handleSubmit (sample_env (Inr sample_payload) True) initial_state Map.empty))))
     \<noteq> js ''/search_snow''"
  by (simp add: handleSubmit_requests search_request_def url_path_def js_def initial_state_def)

lemma dev_proxy_strips_prefix:
  "dev_proxy (js ''/api/search_snow?search_query=x'')
     = Some (js ''http://localhost:8000/search_snow?search_query=x'')"
  by (simp add: dev_proxy_def proxy_rewrite_def startsWith_def js_def)

lemma catch_finally_writes:
  "out_state (catch_finally err s1 st1 reqs) =
     s1\<lparr>error := error (out_state (catch_finally err s1 st1 reqs)), loading := False\<rparr>"
  by (cases "errorMessage err") (simp_all add: catch_finally_def)

text \<open>When the \<open>catch\<close> block has run, the state is the one before the call but for the
  flag, the message and, if the storage refused the write, the new entry of the
  history.\<close>

lemma handleSubmit_caught_state:
  assumes "out_caught (handleSubmit E s st) = Some err"
  shows "out_state (handleSubmit E s st) =
           s\<lparr>loading := False, error := error (out_state (handleSubmit E s st))\<rparr> \<or>
         (\<exists>h. spread (searchHistory s) = Inr h \<and>
            out_state (handleSubmit E s st) =
              s\<lparr>loading := False, error := error (out_state (handleSubmit E s st)),
                searchHistory := JArr (history_entry (query s) (now_iso E) # h)\<rparr>)"
proof (cases "list_all (\<lambda>kv. encodable (snd kv)) (req_params (search_request (query s)))")
  case False
  then show ?thesis
    by (simp add: handleSubmit_def Let_def catch_finally_def split: sum.split)
next
  case enc: True
  show ?thesis
  proof (cases "axios_get E (search_request (query s))")
    case (Inl e)
    with enc show ?thesis
      by (simp add: handleSubmit_def Let_def catch_finally_def split: sum.split)
  next
    case (Inr d)
    note ax = this
    show ?thesis
    proof (cases "spread (searchHistory s)")
      case (Inl e)
      with enc ax show ?thesis
        by (simp add: handleSubmit_def Let_def catch_finally_def split: sum.split)
    next
      case (Inr h)
      with enc ax assms show ?thesis
        by (auto simp: handleSubmit_def Let_def catch_finally_def split: sum.splits)
    qed
  qed
qed

lemma history_view_new_entry:
  assumes "history_view P (JArr items) = Inr hv" and "map_rows (draw_item P) hv = Inr ht"
  shows "\<exists>hv' ht'. history_view P (JArr (history_entry q t # items)) = Inr hv' \<and>
           map_rows (draw_item P) hv' = Inr ht'"
  using assms
  by (simp add: history_view_def history_row_def history_entry_def draw_item_def js_def)

lemma spread_history_view:
  "history_view P h = Inr hv \<Longrightarrow> spread h = Inr items \<Longrightarrow> h = JArr items"
  by (cases h) (simp_all add: history_view_def)

text \<open>
  C9 (as amended). When the \<open>catch\<close> block of \<open>handleSubmit\<close> has run, the payload
  held before the call is still held, and so are the query and the storage; the
  \<open>catch\<close> block itself, entered in any state, leaves that state with only the message
  and the loading flag written. If the component rendered while the request was under
  way, then after the call it renders with the same table whenever React can render
  the message, and it renders nothing, the render throwing, when React cannot.
\<close>

theorem failure_keeps_results:
  assumes "out_caught (handleSubmit E s st) = Some err"
  shows "results (out_state (handleSubmit E s st)) = results s \<and>
   query (out_state (handleSubmit E s st)) = query s \<and>
   out_storage (handleSubmit E s st) = st \<and>
   out_state (catch_finally err s1 st1 reqs) =
     s1\<lparr>error := error (out_state (catch_finally err s1 st1 reqs)), loading := False\<rparr> \<and>
   (\<forall>v et. render_app P (s\<lparr>loading := True, error := JNull\<rparr>) = Inr v \<and>
        draw_error P (error_view (out_state (handleSubmit E s st))) = Inr et \<longrightarrow>
        (\<exists>hv. render_app P (out_state (handleSubmit E s st)) =
           Inr (v\<lparr>view_searching := False, view_error := et, view_history := hv\<rparr>))) \<and>
   (\<forall>v e. render_app P (s\<lparr>loading := True, error := JNull\<rparr>) = Inr v \<and>
        draw_error P (error_view (out_state (handleSubmit E s st))) = Inl e \<longrightarrow>
        render_app P (out_state (handleSubmit E s st)) = Inl e)"
proof -
  let ?s' = "out_state (handleSubmit E s st)"
  from assms have frame: "results ?s' = results s \<and> query ?s' = query s \<and>
      out_storage (handleSubmit E s st) = st"
    by (auto simp: handleSubmit_def Let_def catch_finally_frame split: sum.splits if_splits)
  have loading: "\<not> loading ?s'"
    by (rule handleSubmit_clears_loading)
  have main: "\<exists>tv tt hv' ht'.
      results_view P (results ?s') = Inr tv \<and> draw_table P tv = Inr tt \<and>
      history_view P (searchHistory ?s') = Inr hv' \<and> map_rows (draw_item P) hv' = Inr ht' \<and>
      view_table v = tt \<and> v = \<lparr>view_searching = True, view_error = Bare [], view_table = tt,
         view_history = view_history v\<rparr>"
    if r: "render_app P (s\<lparr>loading := True, error := JNull\<rparr>) = Inr v" for v
  proof -
    from r obtain tv tt hv ht where
      tv: "results_view P (results s) = Inr tv" and tt: "draw_table P tv = Inr tt" and
      hv: "history_view P (searchHistory s) = Inr hv" and ht: "map_rows (draw_item P) hv = Inr ht"
      and v: "v = \<lparr>view_searching = True, view_error = Bare [], view_table = tt,
         view_history = ht\<rparr>"
      by (auto simp: render_app_def App_def render_tree_def error_view_def
          split: sum.splits)
    from handleSubmit_caught_state [OF assms]
    have "\<exists>hv' ht'. history_view P (searchHistory ?s') = Inr hv' \<and>
        map_rows (draw_item P) hv' = Inr ht'"
    proof
      assume "?s' = s\<lparr>loading := False, error := error ?s'\<rparr>"
      then have "searchHistory ?s' = searchHistory s"
        by (metis app_state.select_convs(5) app_state.surjective app_state.update_convs(3,4))
      with hv ht show ?thesis by simp
    next
      assume "\<exists>h. spread (searchHistory s) = Inr h \<and>
          ?s' = s\<lparr>loading := False, error := error ?s',
                  searchHistory := JArr (history_entry (query s) (now_iso E) # h)\<rparr>"
      then obtain h where sp: "spread (searchHistory s) = Inr h"
        and st': "?s' = s\<lparr>loading := False, error := error ?s',
                  searchHistory := JArr (history_entry (query s) (now_iso E) # h)\<rparr>"
        by blast
      from st' have sh: "searchHistory ?s' = JArr (history_entry (query s) (now_iso E) # h)"
        by (metis app_state.select_convs(5) app_state.surjective app_state.update_convs(5))
      from spread_history_view [OF hv sp] hv have "history_view P (JArr h) = Inr hv"
        by simp
      from history_view_new_entry [OF this ht] sh show ?thesis
        by simp
    qed
    with tv tt v frame show ?thesis
      by auto
  qed
  have ok: "\<exists>hv. render_app P ?s' =
           Inr (v\<lparr>view_searching := False, view_error := et, view_history := hv\<rparr>)"
    if r: "render_app P (s\<lparr>loading := True, error := JNull\<rparr>) = Inr v"
      and e: "draw_error P (error_view ?s') = Inr et" for v et
  proof -
    from main [OF r] obtain tv tt hv' ht' where
      a: "results_view P (results ?s') = Inr tv" "draw_table P tv = Inr tt"
        "history_view P (searchHistory ?s') = Inr hv'" "map_rows (draw_item P) hv' = Inr ht'"
      and v: "v = \<lparr>view_searching = True, view_error = Bare [], view_table = tt,
         view_history = view_history v\<rparr>"
      by blast
    have "render_app P ?s' = Inr \<lparr>view_searching = False, view_error = et, view_table = tt,
         view_history = ht'\<rparr>"
      using a e loading by (simp add: render_app_def App_def render_tree_def)
    moreover have "v\<lparr>view_searching := False, view_error := et, view_history := ht'\<rparr> =
        \<lparr>view_searching = False, view_error = et, view_table = tt, view_history = ht'\<rparr>"
      by (subst v) simp
    ultimately show ?thesis
      by (intro exI [where x = ht']) simp
  qed
  have bad: "render_app P ?s' = Inl e"
    if r: "render_app P (s\<lparr>loading := True, error := JNull\<rparr>) = Inr v"
      and e: "draw_error P (error_view ?s') = Inl e" for v e
  proof -
    from main [OF r] obtain tv hv' where
      "results_view P (results ?s') = Inr tv" "history_view P (searchHistory ?s') = Inr hv'"
      by blast
    then show ?thesis
      using e by (simp add: render_app_def App_def render_tree_def)
  qed
  from frame ok bad show ?thesis
    using catch_finally_writes [of err s1 st1 reqs] by blast
qed

definition object_error_body :: jsval where
  "object_error_body = JObj [(js ''error'', JObj [(js ''code'', JNum (js ''500''))])]"

theorem failure_keeps_results_witness:
  "results (out_state
     (handleSubmit (sample_env (Inl (AxiosError None (js ''Network Error''))) True)
        (initial_state\<lparr>results := sample_payload\<rparr>) Map.empty)) = sample_payload \<and>
   render_app sample_platform (out_state
     (handleSubmit (sample_env (Inl (AxiosError None (js ''Network Error''))) True)
        (initial_state\<lparr>results := sample_payload\<rparr>) Map.empty)) =
     Inr \<lparr>view_searching = False, view_error = Drawn [js ''Network Error''],
          view_table = Drawn \<lparr>text_total = 1, text_rows =
            [\<lparr>text_number = [js ''CHG001''], text_short_description = [], text_state = [],
              text_opened_at = [], text_assigned_to = [js ''J. Doe'']\<rparr>]\<rparr>,
          view_history = []\<rparr>"
  using failure_keeps_results
    [of "sample_env (Inl (AxiosError None (js ''Network Error''))) True"
      "initial_state\<lparr>results := sample_payload\<rparr>" Map.empty
      "AxiosError None (js ''Network Error'')" initial_state Map.empty "[]" sample_platform]
  by (simp add: handleSubmit_def Let_def search_request_def sample_env_def catch_finally_def
      errorMessage_def initial_state_def sample_payload_def sample_platform_def render_app_def
      App_def render_tree_def results_view_def render_row_def assigned_to_cell_def opt_chain_def
      nullish_def formatDate_def draw_row_def history_view_def error_view_def js_def)

text \<open>
  C9 as stated fails: with a table on the page, a request rejected with a response whose
  \<open>error\<close> field is an object leaves that object as the message; React refuses it as
  a child, the render throws, and the table is no longer on the page.
\<close>

theorem object_message_counterexample:
  "render_app sample_platform (initial_state\<lparr>results := sample_payload\<rparr>) =
     Inr \<lparr>view_searching = False, view_error = Bare [],
          view_table = Drawn \<lparr>text_total = 1, text_rows =
            [\<lparr>text_number = [js ''CHG001''], text_short_description = [], text_state = [],
              text_opened_at = [], text_assigned_to = [js ''J. Doe'']\<rparr>]\<rparr>,
          view_history = []\<rparr> \<and>
   render_app sample_platform (out_state
     (handleSubmit (sample_env (Inl (AxiosError (Some object_error_body) status_500)) True)
        (initial_state\<lparr>results := sample_payload\<rparr>) Map.empty)) =
     Inl (ReactError (js ''Objects are not valid as a React child''))"
  by (simp add: handleSubmit_def Let_def search_request_def sample_env_def catch_finally_def
      errorMessage_def initial_state_def sample_payload_def sample_platform_def render_app_def
      App_def render_tree_def results_view_def render_row_def assigned_to_cell_def opt_chain_def
      nullish_def formatDate_def draw_row_def history_view_def error_view_def
      object_error_body_def js_def)

text \<open>
  C10, at the input where the code leaves it: the request is rejected with a response
  whose body is \<open>null\<close>. Reading \<open>error\<close> of the body throws inside the \<open>catch\<close>
  block, so no message is set, and the call ends by throwing.
\<close>

theorem null_body_sets_no_message:
  "errorMessage (AxiosError (Some JNull) status_500)
     = Inl (TypeError (js ''Cannot read properties of null (reading error)'')) \<and>
   error (out_state
     (handleSubmit (sample_env (Inl (AxiosError (Some JNull) status_500)) True)
        initial_state Map.empty)) = JNull \<and>
   out_thrown
     (handleSubmit (sample_env (Inl (AxiosError (Some JNull) status_500)) True)
        initial_state Map.empty)
     = Some (TypeError (js ''Cannot read properties of null (reading error)''))"
  by (simp add: handleSubmit_def Let_def search_request_def sample_env_def catch_finally_def errorMessage_def
      initial_state_def js_def)

text \<open>What does hold of the message: a body that can be read and has no truthy
  \<open>error\<close> field gives the literal; with no response the message is the error's own.\<close>

lemma errorMessage_no_error_field:
  "\<not> nullish d \<Longrightarrow> get_prop d (js ''error'') = Inr v \<Longrightarrow> \<not> truthy v \<Longrightarrow>
   errorMessage (AxiosError (Some d) m) = Inr (JStr (js ''An error occurred''))"
  by (simp add: errorMessage_def)

lemma errorMessage_no_response:
  "err_response err = None \<Longrightarrow> errorMessage err = Inr (JStr (err_message err))"
  by (simp add: errorMessage_def)

section \<open>Properties of the results table\<close>

lemma render_row_assigned_to:
  "render_row P record = Inr r \<Longrightarrow>
   render_child P (cell_assigned_to r) = assigned_to_text P record"
  by (auto simp: render_row_def assigned_to_text_def split: sum.splits)

text \<open>
  C8 (as amended). When \<open>assigned_to\<close> is \<open>null\<close> or \<open>undefined\<close> the cell is the
  text \<open>Unassigned\<close>. When it is present and its \<open>display_value\<close> is falsy (missing,
  \<open>null\<close>, the empty string, \<open>false\<close> or a zero), the cell is the text
  \<open>Unassigned\<close> too. When it is present and its \<open>display_value\<close> is truthy, the cell
  is what React renders for that value: a string is its own text, and so the
  \<open>display_value\<close> is shown; a number is its text, \<open>true\<close> is nothing, and an
  object makes the render throw.
\<close>

theorem assigned_to_cell_fallback:
  "get_prop record (js ''assigned_to'') = Inr a \<Longrightarrow>
   (nullish a \<longrightarrow> assigned_to_text P record = Inr [js ''Unassigned'']) \<and>
   (\<forall>dv. \<not> nullish a \<and> get_prop a (js ''display_value'') = Inr dv \<longrightarrow>
      assigned_to_text P record =
        (if truthy dv then render_child P dv else Inr [js ''Unassigned''])) \<and>
   (\<forall>name. \<not> nullish a \<and> get_prop a (js ''display_value'') = Inr (JStr name) \<and> name \<noteq> [] \<longrightarrow>
      assigned_to_text P record = Inr [name])"
  by (simp add: assigned_to_text_def assigned_to_cell_def opt_chain_def js_def)

theorem assigned_to_cell_fallback_witness:
  "assigned_to_text sample_platform (JObj [(js ''number'', JStr (js ''CHG001''))])
     = Inr [js ''Unassigned''] \<and>
   assigned_to_text sample_platform
     (JObj [(js ''assigned_to'', JObj [(js ''display_value'', JStr (js ''J. Doe''))])])
     = Inr [js ''J. Doe''] \<and>
   assigned_to_text sample_platform
     (JObj [(js ''assigned_to'', JObj [(js ''display_value'', JNum (js ''1e-400''))])])
     = Inr [js ''Unassigned'']"
  using assigned_to_cell_fallback [of "JObj [(js ''number'', JStr (js ''CHG001''))]" JUndefined
      sample_platform]
    assigned_to_cell_fallback
      [of "JObj [(js ''assigned_to'', JObj [(js ''display_value'', JStr (js ''J. Doe''))])]"
        "JObj [(js ''display_value'', JStr (js ''J. Doe''))]" sample_platform]
    assigned_to_cell_fallback
      [of "JObj [(js ''assigned_to'', JObj [(js ''display_value'', JNum (js ''1e-400''))])]"
        "JObj [(js ''display_value'', JNum (js ''1e-400''))]" sample_platform]
  by (simp add: nullish_def js_def num_is_zero_def is_digit_def digits_value_def
      exponent_value_def)

text \<open>
  C8 as stated fails: a record whose \<open>assigned_to\<close> object is present with an empty
  \<open>display_value\<close> renders \<open>Unassigned\<close>.
\<close>

theorem empty_display_value_counterexample:
  "assigned_to_text sample_platform
     (JObj [(js ''number'', JStr (js ''CHG001'')),
            (js ''assigned_to'', JObj [(js ''display_value'', JStr [])])])
     = Inr [js ''Unassigned'']"
  by (simp add: assigned_to_text_def assigned_to_cell_def opt_chain_def nullish_def js_def)

section \<open>The stored history\<close>

subsection \<open>A quoted string is read back\<close>

lemma hex_digits_all: "list_all (\<lambda>n. hex_value (hex_digit n) = Some n) [0..<16]"
  by code_simp

lemma hex_value_hex_digit: "n < 16 \<Longrightarrow> hex_value (hex_digit n) = Some n"
  using hex_digits_all by (simp add: list_all_iff)

lemma nibbles:
  assumes "n < 65536"
  shows "((n div 4096 * 16 + n div 256 mod 16) * 16 + n div 16 mod 16) * 16 + n mod 16 = (n::nat)"
proof -
  define d3 d2 d1 d0 r8 r12 where "d3 = n div 4096" and "d2 = n div 256 mod 16"
    and "d1 = n div 16 mod 16" and "d0 = n mod 16" and "r8 = n mod 256" and "r12 = n mod 4096"
  have a: "r8 = 16 * d1 + d0"
    unfolding d1_def d0_def r8_def using mod_mult2_eq [of n 16 16] by simp
  have b: "r12 = 256 * d2 + r8"
    unfolding d2_def r8_def r12_def using mod_mult2_eq [of n 256 16] by simp
  have c: "n = 4096 * d3 + r12"
    unfolding d3_def r12_def by simp
  have "((d3 * 16 + d2) * 16 + d1) * 16 + d0 = n"
    by (subst c, subst b, subst a) (simp add: algebra_simps)
  then show ?thesis
    unfolding d3_def d2_def d1_def d0_def .
qed


lemma hex4_unicode_escape:
  "hex4 (hex_digit (unat c div 4096)) (hex_digit (unat c div 256 mod 16))
        (hex_digit (unat c div 16 mod 16)) (hex_digit (unat c mod 16)) = Some (c :: jschar)"
proof -
  have lt: "unat c < 65536"
    using unsigned_less [of c] by simp
  then have d3: "unat c div 4096 < 16" by simp
  have "hex4 (hex_digit (unat c div 4096)) (hex_digit (unat c div 256 mod 16))
        (hex_digit (unat c div 16 mod 16)) (hex_digit (unat c mod 16))
      = Some (of_nat (((unat c div 4096 * 16 + unat c div 256 mod 16) * 16 + unat c div 16 mod 16) * 16
           + unat c mod 16))"
    using d3 by (simp add: hex4_def hex_value_hex_digit del: of_nat_add of_nat_mult)
  also have "\<dots> = Some (of_nat (unat c))"
    by (simp only: nibbles [OF lt])
  finally show ?thesis by simp
qed

lemma parse_chars_plain:
  "\<not> c < 0x20 \<Longrightarrow> c \<noteq> 0x22 \<Longrightarrow> c \<noteq> 0x5C \<Longrightarrow> parse_chars (c # cs) = consed c (parse_chars cs)"
  by simp

lemma surrogate_plain:
  fixes c :: jschar
  assumes "0xD800 \<le> c"
  shows "\<not> c < 0x20" and "c \<noteq> 0x22" and  "c \<noteq> 0x5C"
  using assms by (auto simp: word_le_nat_alt word_less_nat_alt)

lemma parse_chars_quote_unit: "parse_chars (quote_unit c @ cs) = consed c (parse_chars cs)"
  by (simp add: quote_unit_def unicode_escape_def simple_escape_def hex4_unicode_escape
      is_high_surrogate_def is_low_surrogate_def)

lemma parse_chars_pair:
  assumes "is_high_surrogate c" and "is_low_surrogate d"
  shows "parse_chars (c # d # cs) = consed c (consed d (parse_chars cs))"
proof -
  have c: "0xD800 \<le> c" using assms(1) by (simp add: is_high_surrogate_def)
  have "(0xD800 :: jschar) \<le> 0xDC00" by simp
  also have "0xDC00 \<le> d" using assms(2) by (simp add: is_low_surrogate_def)
  finally have d: "0xD800 \<le> d" .
  show ?thesis
    by (simp only: parse_chars_plain [OF surrogate_plain [OF c]]
        parse_chars_plain [OF surrogate_plain [OF d]])
qed

lemma parse_chars_quote_body: "parse_chars (quote_body s @ 0x22 # rest) = Some (s, rest)"
proof (induction s rule: quote_body.induct)
  case 1
  show ?case by simp
next
  case (2 c)
  show ?case
    by (simp add: parse_chars_quote_unit consed_def)
next
  case (3 c d cs)
  show ?case
  proof (cases "is_high_surrogate c \<and> is_low_surrogate d")
    case True
    then have "quote_body (c # d # cs) = c # d # quote_body cs"
      by simp
    moreover have "parse_chars (quote_body cs @ 0x22 # rest) = Some (cs, rest)"
      using 3(1) True by simp
    ultimately show ?thesis
      using True by (simp add: parse_chars_pair consed_def del: parse_chars.simps)
  next
    case False
    then have "quote_body (c # d # cs) = quote_unit c @ quote_body (d # cs)"
      by (simp only: quote_body.simps if_False)
    moreover have "parse_chars (quote_body (d # cs) @ 0x22 # rest) = Some (d # cs, rest)"
      using 3(2) False by blast
    ultimately show ?thesis
      by (simp add: parse_chars_quote_unit consed_def del: parse_chars.simps quote_body.simps)
  qed
qed

lemma tokenize_quoted:
  "tokenize (QuoteJSONString s @ rest) = push (TScalar (JStr s)) (tokenize rest)"
  by (simp add: QuoteJSONString_def parse_chars_quote_body is_ws_def)

subsection \<open>A sequence of history entries is read back\<close>

text \<open>A history entry as the pair of its query and its timestamp, the text
  \<open>JSON.stringify\<close> writes for it, and the tokens of that text.\<close>

definition entry_text :: "jsstring \<times> jsstring \<Rightarrow> jsstring" where
  "entry_text e =
     0x7B # QuoteJSONString (js ''query'') @ 0x3A # QuoteJSONString (fst e) @ 0x2C #
       QuoteJSONString (js ''timestamp'') @ 0x3A # QuoteJSONString (snd e) @ [0x7D]"

definition entry_tokens :: "jsstring \<times> jsstring \<Rightarrow> token list" where
  "entry_tokens e =
     [TLBrace, TScalar (JStr (js ''query'')), TColon, TScalar (JStr (fst e)), TComma,
      TScalar (JStr (js ''timestamp'')), TColon, TScalar (JStr (snd e)), TRBrace]"

definition entry_of :: "jsstring \<times> jsstring \<Rightarrow> jsval" where
  "entry_of e = history_entry (fst e) (snd e)"

fun entries_tokens :: "(jsstring \<times> jsstring) list \<Rightarrow> token list" where
  "entries_tokens [] = []"
| "entries_tokens [e] = entry_tokens e"
| "entries_tokens (e # e' # es) = entry_tokens e @ TComma # entries_tokens (e' # es)"

lemma serialize_entry: "serialize (entry_of e) = Some (entry_text e)"
  by (simp add: entry_of_def history_entry_def entry_text_def)

lemma serialize_entries:
  "serialize (JArr (map entry_of es)) = Some (0x5B # join_with [0x2C] (map entry_text es) @ [0x5D])"
  by (simp add: serialize_entry comp_def)

lemma tokenize_entry:
  "tokenize (entry_text e @ rest) =
     (case tokenize rest of None \<Rightarrow> None | Some ts \<Rightarrow> Some (entry_tokens e @ ts))"
  by (simp add: entry_text_def entry_tokens_def tokenize_quoted is_ws_def push_def
      split: option.split)

lemma tokenize_entries:
  "tokenize (join_with [0x2C] (map entry_text es) @ 0x5D # rest) =
     (case tokenize rest of None \<Rightarrow> None | Some ts \<Rightarrow> Some (entries_tokens es @ TRBrack # ts))"
proof (induction es rule: entries_tokens.induct)
  case 1
  show ?case by (simp add: is_ws_def push_def split: option.split)
next
  case (2 e)
  show ?case
    by (simp add: tokenize_entry is_ws_def push_def split: option.split)
next
  case (3 e e' es)
  then show ?case
    by (simp add: tokenize_entry is_ws_def push_def split: option.split)
qed

lemma tokenize_history:
  "tokenize (0x5B # join_with [0x2C] (map entry_text es) @ [0x5D])
     = Some (TLBrack # entries_tokens es @ [TRBrack])"
  using tokenize_entries [of es "[]"] by (simp add: is_ws_def push_def)

lemma run_append:
  "run p (ts @ us) = (case run p ts of None \<Rightarrow> None | Some p' \<Rightarrow> run p' us)"
  by (induction ts arbitrary: p) (auto split: option.split)

lemma run_entry:
  "run \<lparr>stack = FArr acc # stk, pmode = NeedValue b, parsed = None\<rparr> (entry_tokens e)
     = Some \<lparr>stack = FArr (acc @ [entry_of e]) # stk, pmode = AfterValue, parsed = None\<rparr>"
  by (simp add: entry_tokens_def step_def deliver_def put_member_def entry_of_def
      history_entry_def js_def)

lemma run_entries:
  "es \<noteq> [] \<Longrightarrow>
   run \<lparr>stack = FArr acc # stk, pmode = NeedValue b, parsed = None\<rparr> (entries_tokens es)
     = Some \<lparr>stack = FArr (acc @ map entry_of es) # stk, pmode = AfterValue, parsed = None\<rparr>"
proof (induction es arbitrary: acc b rule: entries_tokens.induct)
  case 1
  then show ?case by simp
next
  case (2 e)
  show ?case by (simp add: run_entry)
next
  case (3 e e' es)
  have "run \<lparr>stack = FArr (acc @ [entry_of e]) # stk, pmode = NeedValue False, parsed = None\<rparr>
          (entries_tokens (e' # es))
        = Some \<lparr>stack = FArr ((acc @ [entry_of e]) @ map entry_of (e' # es)) # stk,
             pmode = AfterValue, parsed = None\<rparr>"
    by (rule "3.IH") simp
  then show ?case
    by (simp add: run_append run_entry step_def)
qed

lemma run_history:
  "run \<lparr>stack = [], pmode = NeedValue False, parsed = None\<rparr> (TLBrack # entries_tokens es @ [TRBrack])
     = Some \<lparr>stack = [], pmode = AfterValue, parsed = Some (JArr (map entry_of es))\<rparr>"
proof (cases "es = []")
  case True
  then show ?thesis by (simp add: step_def deliver_def)
next
  case False
  then show ?thesis
    by (simp add: step_def deliver_def run_append run_entries)
qed

lemma JSON_roundtrip:
  "JSON_parse (JSON_stringify (JArr (map entry_of es))) = Inr (JArr (map entry_of es))"
  unfolding JSON_stringify_def JSON_parse_def serialize_entries
  by (simp add: tokenize_history run_history del: tokenize.simps run.simps)


lemma JSON_stringify_entries_nonempty: "JSON_stringify (JArr (map entry_of es)) \<noteq> []"
  by (simp add: JSON_stringify_def)

subsection \<open>Storing and loading\<close>

text \<open>
  C5. For every sequence of history entries held (any query and timestamp strings):
  when \<open>handleSubmit\<close> appends, that is, the request is sent and resolves and the
  storage takes the write, the history it leaves in memory is the new entry followed
  by that sequence, and the effect that loads the history, run on the storage the call
  leaves, sets the history to exactly that sequence, in the same order.
\<close>

theorem history_roundtrip:
  assumes "searchHistory s = JArr (map entry_of es)" and "well_formed (query s)"
    and "axios_get E (search_request (query s)) = Inr d"
    and "quota_ok E (st(js ''searchHistory'' \<mapsto>
           JSON_stringify (JArr (map entry_of ((query s, now_iso E) # es)))))"
  shows "searchHistory (out_state (handleSubmit E s st)) =
           JArr (map entry_of ((query s, now_iso E) # es)) \<and>
         loadHistory s0 (out_storage (handleSubmit E s st)) =
           Inr (s0\<lparr>searchHistory := JArr (map entry_of ((query s, now_iso E) # es))\<rparr>)"
proof -
  let ?h = "JArr (map entry_of ((query s, now_iso E) # es))"
  have h: "JArr (history_entry (query s) (now_iso E) # map entry_of es) = ?h"
    by (simp add: entry_of_def)
  have sp: "spread (searchHistory s) = Inr (map entry_of es)"
    using assms(1) by simp
  have "handleSubmit E s st =
     \<lparr>out_state = s\<lparr>loading := False, error := JNull, searchHistory := ?h, results := d\<rparr>,
      out_storage = st(js ''searchHistory'' \<mapsto> JSON_stringify ?h),
      out_requests = [search_request (query s)], out_caught = None, out_thrown = None\<rparr>"
    using handleSubmit_completes [OF assms(2,3) sp] assms(4) unfolding h by simp
  then show ?thesis
    by (simp add: loadHistory_def getItem_def JSON_stringify_entries_nonempty JSON_roundtrip
        del: serialize.simps list.map)
qed

theorem history_roundtrip_witness:
  "loadHistory initial_state
     (out_storage (handleSubmit (sample_env (Inr sample_payload) True)
        (initial_state\<lparr>query := js ''open change tickets'',
           searchHistory := JArr [history_entry (js ''closed'') (js ''2025-05-08T09:00:00.000Z'')]\<rparr>)
        Map.empty))
   = Inr (initial_state\<lparr>searchHistory :=
       JArr [history_entry (js ''open change tickets'') (js ''2025-05-09T10:00:00.000Z''),
             history_entry (js ''closed'') (js ''2025-05-08T09:00:00.000Z'')]\<rparr>)"
  using history_roundtrip
    [of "initial_state\<lparr>query := js ''open change tickets'',
           searchHistory := JArr [history_entry (js ''closed'') (js ''2025-05-08T09:00:00.000Z'')]\<rparr>"
      "[(js ''closed'', js ''2025-05-08T09:00:00.000Z'')]"
      "sample_env (Inr sample_payload) True" sample_payload Map.empty initial_state]
  by (simp add: sample_env_def entry_of_def initial_state_def js_def is_high_surrogate_def
      is_low_surrogate_def)

text \<open>
  C4 (as amended). When the slot is absent or holds the empty string, loading leaves the
  history the empty sequence and throws nothing. When it holds a text, the history
  becomes what \<open>JSON.parse\<close> returns for it, and when \<open>JSON.parse\<close> throws, the
  effect throws the same error: nothing catches it.
\<close>

theorem load_history_absent_or_parsed:
  "(getItem st (js ''searchHistory'') = None \<or> getItem st (js ''searchHistory'') = Some []
      \<longrightarrow> loadHistory initial_state st = Inr initial_state
          \<and> searchHistory initial_state = JArr []) \<and>
   (\<forall>raw v. getItem st (js ''searchHistory'') = Some raw \<and> raw \<noteq> [] \<and> JSON_parse raw = Inr v
      \<longrightarrow> loadHistory s st = Inr (s\<lparr>searchHistory := v\<rparr>)) \<and>
   (\<forall>raw e. getItem st (js ''searchHistory'') = Some raw \<and> raw \<noteq> [] \<and> JSON_parse raw = Inl e
      \<longrightarrow> loadHistory s st = Inl e)"
  by (auto simp: loadHistory_def initial_state_def)

theorem load_history_absent_or_parsed_witness:
  "loadHistory initial_state Map.empty = Inr initial_state \<and>
   loadHistory initial_state [js ''searchHistory'' \<mapsto> js ''[]''] = Inr initial_state \<and>
   loadHistory initial_state [js ''searchHistory'' \<mapsto> js ''not json''] = Inl syntax_error"
  using load_history_absent_or_parsed [of Map.empty initial_state]
    load_history_absent_or_parsed [of "[js ''searchHistory'' \<mapsto> js ''[]'']" initial_state]
    load_history_absent_or_parsed [of "[js ''searchHistory'' \<mapsto> js ''not json'']" initial_state]
  by (simp add: getItem_def js_def JSON_parse_def is_ws_def startsWith_def lex_number_def
      lex_int_def is_digit_def step_def deliver_def initial_state_def push_def)

text \<open>
  C4 as stated fails: with a cut-off text in the slot, loading throws \<open>SyntaxError\<close>
  instead of giving the empty sequence.
\<close>

theorem malformed_history_counterexample:
  "loadHistory initial_state [js ''searchHistory'' \<mapsto> js ''[{'']
     = Inl (SyntaxError (js ''Unexpected token in JSON''))"
  by (simp add: loadHistory_def getItem_def js_def JSON_parse_def is_ws_def step_def
      deliver_def push_def syntax_error_def)

section \<open>Properties of the asset rewrite plugin\<close>

lemma shortest_before_paren:
  "filter is_line_terminator u = [] \<Longrightarrow> 0x29 \<notin> set u \<Longrightarrow>
   shortest_before [0x29] (u @ 0x29 # post) = Some (u, post)"
  by (induction u) (auto simp: startsWith_def consed_def split: if_splits)

lemma shortest_before_quote_paren:
  "q \<noteq> 0x29 \<Longrightarrow> filter is_line_terminator u = [] \<Longrightarrow> \<not> js_includes u [q, 0x29] \<Longrightarrow>
   shortest_before [q, 0x29] (u @ q # 0x29 # post) = Some (u, post)"
proof (induction u)
  case Nil
  then show ?case by (simp add: startsWith_def)
next
  case (Cons c cs)
  then have ih: "shortest_before [q, 0x29] (cs @ q # 0x29 # post) = Some (cs, post)"
    by (simp split: if_splits)
  have nl: "\<not> is_line_terminator c"
    using Cons.prems(2) by (simp split: if_splits)
  have "\<not> startsWith (c # cs @ q # 0x29 # post) [q, 0x29]"
    using Cons.prems(1,3) by (cases cs) (auto simp: startsWith_def)
  then show ?case
    using ih nl by (simp add: consed_def)
qed

lemma match_url_well_delimited:
  assumes "well_delimited q u"
  shows "match_url (js ''url('' @ q @ u @ q @ 0x29 # post) = Some (q, u, post)"
proof (cases q)
  case Nil
  with assms have u: "filter is_line_terminator u = []" "0x29 \<notin> set u"
    and h: "case u of [] \<Rightarrow> True | c # cs \<Rightarrow> c \<noteq> 0x27 \<and> c \<noteq> 0x22"
    by simp_all
  have "match_quoted (u @ 0x29 # post) = None"
    using h by (cases u) (simp_all add: match_quoted_def)
  then show ?thesis
    using Nil shortest_before_paren [OF u]
    by (simp add: match_url_def match_unquoted_def startsWith_def js_def)
next
  case (Cons c qs)
  with assms have qs: "qs = []"
    by (cases qs) simp_all
  with Cons assms have c: "c = 0x27 \<or> c = 0x22" and u: "filter is_line_terminator u = []"
    and n: "\<not> js_includes u [c, 0x29]"
    by simp_all
  from c have "c \<noteq> 0x29" by auto
  from shortest_before_quote_paren [OF this u n]
  show ?thesis
    using Cons qs c by (auto simp: match_url_def match_quoted_def startsWith_def js_def)
qed

lemma no_match_before:
  assumes "\<not> js_includes (c # pre) (js ''url('')"
  shows "match_url (c # pre @ js ''url('' @ r) = None"
proof -
  have "\<not> startsWith (c # pre @ js ''url('' @ r) (js ''url('')"
  proof (cases pre)
    case Nil
    then show ?thesis by (auto simp: startsWith_def js_def)
  next
    case (Cons a pre1)
    note p1 = this
    show ?thesis
    proof (cases pre1)
      case Nil
      with p1 show ?thesis by (auto simp: startsWith_def js_def)
    next
      case (Cons b pre2)
      note p2 = this
      show ?thesis
      proof (cases pre2)
        case Nil
        with p1 p2 show ?thesis by (auto simp: startsWith_def js_def)
      next
        case (Cons d pre3)
        with p1 p2 assms show ?thesis by (auto simp: startsWith_def js_def)
      qed
    qed
  qed
  then show ?thesis
    by (simp add: match_url_def)
qed

lemma replace_urls_prefix:
  "\<not> js_includes pre (js ''url('') \<Longrightarrow>
   replace_urls resolve (pre @ js ''url('' @ r) =
     (case replace_urls resolve (js ''url('' @ r) of Inl e \<Rightarrow> Inl e | Inr out \<Rightarrow> Inr (pre @ out))"
proof (induction pre)
  case Nil
  show ?case by (simp split: sum.split)
next
  case (Cons c pre)
  from Cons.prems have "\<not> js_includes pre (js ''url('')"
    by simp
  with Cons.IH have ih: "replace_urls resolve (pre @ js ''url('' @ r) =
     (case replace_urls resolve (js ''url('' @ r) of Inl e \<Rightarrow> Inl e | Inr out \<Rightarrow> Inr (pre @ out))"
    by simp
  show ?case
    using no_match_before [OF Cons.prems, of r] ih
    by (simp split: sum.split)
qed

lemma startsWith_shorter: "startsWith s (p @ p') \<Longrightarrow> startsWith s p"
proof -
  assume "startsWith s (p @ p')"
  then have "take (length p) (take (length (p @ p')) s) = take (length p) (p @ p')"
    by (simp only: startsWith_def)
  then show ?thesis
    by (simp add: startsWith_def min_def)
qed

lemma replace_urls_no_url:
  "\<not> js_includes v (js ''url'') \<Longrightarrow> replace_urls resolve v = Inr v"
proof (induction v)
  case Nil
  show ?case by simp
next
  case (Cons c v)
  then have "replace_urls resolve v = Inr v"
    by simp
  moreover have "\<not> startsWith (c # v) (js ''url'' @ js ''('')"
    using Cons.prems startsWith_shorter by auto
  then have "match_url (c # v) = None"
    by (simp add: match_url_def js_def)
  ultimately show ?case by simp
qed

lemma rewrite_value_replace: "rewrite_value resolve v = replace_urls resolve v"
  by (simp add: rewrite_value_def replace_urls_no_url)

text \<open>One token after a text without \<open>url(\<close>: the text is kept, the token is
  rewritten, and the rest of the value is rewritten on its own.\<close>

lemma rewrite_token_step:
  assumes "\<not> js_includes pre (js ''url('')" and "well_delimited q u"
  shows "rewrite_value resolve (pre @ url_token q u @ post) =
     (case (if startsWith u (js ''data:'') \<or> startsWith u (js ''http'') then Inr u
            else resolve u (js ''http://localhost:3000'')) of
        Inl e \<Rightarrow> Inl e
      | Inr u' \<Rightarrow>
          (case rewrite_value resolve post of
             Inl e \<Rightarrow> Inl e
           | Inr post' \<Rightarrow> Inr (pre @ url_token q u' @ post')))"
proof -
  have tok: "url_token q u @ post = js ''url('' @ q @ u @ q @ 0x29 # post"
    by (simp add: url_token_def)
  have m: "match_url (js ''url('' @ q @ u @ q @ 0x29 # post) = Some (q, u, post)"
    by (rule match_url_well_delimited [OF assms(2)])
  obtain c cs where cs: "js ''url('' @ q @ u @ q @ 0x29 # post = c # cs"
    by (simp add: js_def)
  have "replace_urls resolve (c # cs) =
     (case replacer resolve (url_token q u) q u of
        Inl e \<Rightarrow> Inl e
      | Inr new \<Rightarrow>
          (case replace_urls resolve post of Inl e \<Rightarrow> Inl e | Inr out \<Rightarrow> Inr (new @ out)))"
    using m unfolding cs by simp
  then have head: "replace_urls resolve (js ''url('' @ q @ u @ q @ 0x29 # post) =
     (case replacer resolve (url_token q u) q u of
        Inl e \<Rightarrow> Inl e
      | Inr new \<Rightarrow>
          (case replace_urls resolve post of Inl e \<Rightarrow> Inl e | Inr out \<Rightarrow> Inr (new @ out)))"
    unfolding cs .
  show ?thesis
    unfolding rewrite_value_replace tok replace_urls_prefix [OF assms(1)] head
    by (simp add: replacer_def split: sum.split)
qed

lemma replace_urls_no_token:
  "\<not> js_includes v (js ''url('') \<Longrightarrow> replace_urls resolve v = Inr v"
proof (induction v)
  case Nil
  show ?case by simp
next
  case (Cons c v)
  then have "replace_urls resolve v = Inr v"
    by simp
  moreover have "match_url (c # v) = None"
    using Cons.prems by (simp add: match_url_def)
  ultimately show ?case by simp
qed

lemma retarget_cases:
  "retarget resolve p =
     (case (if startsWith (piece_ref p) (js ''data:'') \<or> startsWith (piece_ref p) (js ''http'')
            then Inr (piece_ref p) else resolve (piece_ref p) (js ''http://localhost:3000'')) of
        Inl e \<Rightarrow> Inl e
      | Inr u' \<Rightarrow> Inr (p\<lparr>piece_ref := u'\<rparr>))"
  by (simp add: retarget_def split: sum.split)

text \<open>
  C7 (as amended). Take the value of a \<open>background-image\<close> declaration made of
  pieces, each a text in which \<open>url(\<close> does not occur followed by a token that the
  pattern reads as written, and of a tail without \<open>url(\<close>. The transform gives the
  same texts and tail, and for each token, on its own and from left to right: the same
  token when its reference starts with \<open>data:\<close> or with \<open>http\<close>, and otherwise
  the token with the same quote around what resolving the reference against
  \<open>http://localhost:3000\<close> gives. When resolving a reference throws, the transform
  throws.
\<close>

theorem rewrite_tokens:
  assumes "list_all piece_ok ps" and "\<not> js_includes tail (js ''url('')"
  shows "rewrite_value resolve (assemble ps tail) =
     (case map_rows (retarget resolve) ps of
        Inl e \<Rightarrow> Inl e
      | Inr ps' \<Rightarrow> Inr (assemble ps' tail))"
  using assms(1)
proof (induction ps)
  case Nil
  show ?case
    using assms(2) by (simp add: rewrite_value_replace replace_urls_no_token)
next
  case (Cons p ps)
  then have ok: "\<not> js_includes (piece_before p) (js ''url('')"
      "well_delimited (piece_quote p) (piece_ref p)"
    and ih: "rewrite_value resolve (assemble ps tail) =
      (case map_rows (retarget resolve) ps of Inl e \<Rightarrow> Inl e | Inr ps' \<Rightarrow> Inr (assemble ps' tail))"
    by (simp_all add: piece_ok_def)
  show ?case
    unfolding assemble.simps map_rows.simps rewrite_token_step [OF ok] ih retarget_cases
    by (simp split: sum.split)
qed

theorem rewrite_tokens_witness:
  "rewrite_value sample_resolve (url_token [0x27] (js ''images/a.png''))
     = Inr (url_token [0x27] (js ''http://localhost:3000/images/a.png'')) \<and>
   rewrite_value sample_resolve (url_token [] (js ''http://cdn.example/a.png''))
     = Inr (url_token [] (js ''http://cdn.example/a.png'')) \<and>
   rewrite_value sample_resolve (url_token [] (js ''data:image/png;base64,AAAA''))
     = Inr (url_token [] (js ''data:image/png;base64,AAAA'')) \<and>
   rewrite_value sample_resolve
     (url_token [0x22] (js ''a.png'') @ js '', '' @ url_token [] (js ''http://cdn.example/b.png'')
        @ js '' no-repeat'')
     = Inr (url_token [0x22] (js ''http://localhost:3000/a.png'') @ js '', '' @
            url_token [] (js ''http://cdn.example/b.png'') @ js '' no-repeat'')"
  using
    rewrite_tokens [of "[\<lparr>piece_before = [], piece_quote = [0x27], piece_ref = js ''images/a.png''\<rparr>]"
      "[]" sample_resolve]
    rewrite_tokens [of "[\<lparr>piece_before = [], piece_quote = [], piece_ref = js ''http://cdn.example/a.png''\<rparr>]"
      "[]" sample_resolve]
    rewrite_tokens [of "[\<lparr>piece_before = [], piece_quote = [], piece_ref = js ''data:image/png;base64,AAAA''\<rparr>]"
      "[]" sample_resolve]
    rewrite_tokens [of "[\<lparr>piece_before = [], piece_quote = [0x22], piece_ref = js ''a.png''\<rparr>,
        \<lparr>piece_before = js '', '', piece_quote = [], piece_ref = js ''http://cdn.example/b.png''\<rparr>]"
      "js '' no-repeat''" sample_resolve]
  by (simp add: piece_ok_def retarget_def js_def startsWith_def is_line_terminator_def
      sample_resolve_def)

text \<open>
  C7 as stated fails: \<open>httpdocs/a.png\<close> is a relative reference, using neither the
  data scheme nor an absolute HTTP(S) scheme, and the token is left as it is, because
  the reference starts with \<open>http\<close>.
\<close>

theorem relative_http_prefix_counterexample:
  "\<not> uses_data_scheme (js ''httpdocs/a.png'') \<and>
   \<not> uses_absolute_http (js ''httpdocs/a.png'') \<and>
   rewrite_value sample_resolve (url_token [] (js ''httpdocs/a.png''))
     = Inr (url_token [] (js ''httpdocs/a.png'')) \<and>
   sample_resolve (js ''httpdocs/a.png'') (js ''http://localhost:3000'')
     = Inr (js ''http://localhost:3000/httpdocs/a.png'')"
  by (simp add: uses_data_scheme_def uses_absolute_http_def rewrite_value_def url_token_def
      js_def startsWith_def match_url_def match_quoted_def match_unquoted_def replacer_def
      is_line_terminator_def consed_def sample_resolve_def)

lemma rewrite_decl_other_property:
  "decl_prop d \<noteq> js ''background-image'' \<Longrightarrow> rewrite_decl resolve d = Inr d"
  by (simp add: rewrite_decl_def)

end
